theory Spec2Isabelle
  imports Complex_Main
begin

section \<open>HeatMap engine: data model\<close>

text \<open>
  The engine is the block of \<^verbatim>\<open>TALIB_INDICATORS.md\<close> between \<^verbatim>\<open>clamp\<close> and
  \<^verbatim>\<open>buildHeatMap\<close>. JavaScript numbers are modelled as \<^typ>\<open>real\<close> (exact arithmetic).
  Parameter values and scores of the input are finite numbers; a result that has no
  value for a key (\<^verbatim>\<open>it.params?.[k]\<close> is \<^verbatim>\<open>undefined\<close>) has \<^const>\<open>None\<close> there. In a
  range object and in the configuration, \<^const>\<open>None\<close> is \<^verbatim>\<open>null\<close> or a missing property,
  which the code does not tell apart (\<^verbatim>\<open>== null\<close>, \<^verbatim>\<open>||\<close>, \<^verbatim>\<open>&&\<close>).
  \<^verbatim>\<open>Array.prototype.sort\<close> is stable, as \<^const>\<open>sort_key\<close> is. The limit a JavaScript
  engine puts on the number of arguments of \<^verbatim>\<open>Math.min(...allScores)\<close> is not modelled.
\<close>

record Result =
  ident :: string
  params :: "string \<rightharpoonup> real"
  score :: real

text \<open>\<^verbatim>\<open>{ ...it, xCoord, yCoord }\<close> and \<^verbatim>\<open>{ ...it, xCentered, yCentered }\<close>.\<close>

record Placed = Result +
  xCoord :: real
  yCoord :: real

record Centered = Placed +
  xCentered :: real
  yCentered :: real

text \<open>A range object \<^verbatim>\<open>{ min, max }\<close>; \<^verbatim>\<open>null\<close> is \<^const>\<open>None\<close>.\<close>

record Range =
  minv :: "real option"
  maxv :: "real option"

record HeatMapConfig =
  xAxis :: "string list option"
  yAxis :: "string list option"
  fixedParams :: "(string \<times> real) list option"
  scoreDirection :: "string option"

record Cell =
  xi :: nat
  yi :: nat
  count :: nat
  avgScore :: "real option"
  minScore :: "real option"
  maxScore :: "real option"
  paramRangesX :: "string \<rightharpoonup> Range"
  paramRangesY :: "string \<rightharpoonup> Range"
  results :: "Centered list"
  zoomRanges :: "(string \<rightharpoonup> Range) option"

record HeatMapMatrix =
  N :: nat
  W :: int
  H :: int
  scoreMin :: real
  scoreMax :: real
  centerX :: real
  centerY :: real
  cells :: "Cell list list"
  xKeys :: "string list"
  yKeys :: "string list"

text \<open>
  The only exception the engine can raise: \<^verbatim>\<open>cells[yi][xi].push(it)\<close> with a bin index
  that is \<^verbatim>\<open>NaN\<close> reads \<^verbatim>\<open>undefined\<close> and fails with a TypeError.
\<close>

datatype error = TypeError

section \<open>Numeric helpers\<close>

definition HEATMAP_MAX_SIZE :: int where
  "HEATMAP_MAX_SIZE = 15"

definition clamp :: "'a::linorder \<Rightarrow> 'a \<Rightarrow> 'a \<Rightarrow> 'a" where
  "clamp v a b = max a (min b v)"

definition lerp :: "real \<Rightarrow> real \<Rightarrow> real \<Rightarrow> real" where
  "lerp a b t = a + (b - a) * t"

text \<open>
  \<^verbatim>\<open>quantile(sortedArr, q)\<close>. An index outside the array reads \<^verbatim>\<open>undefined\<close>; the
  result is then \<^verbatim>\<open>undefined\<close> or \<^verbatim>\<open>NaN\<close>, here \<^const>\<open>None\<close>.
\<close>

definition quantile :: "real list \<Rightarrow> real \<Rightarrow> real option" where
  "quantile sortedArr q =
     (if sortedArr = [] then Some 0
      else
        let pos = real (length sortedArr - 1) * q;
            base = \<lfloor>pos\<rfloor>;
            rest = pos - real_of_int base
        in if base < 0 \<or> int (length sortedArr) \<le> base then None
           else if int (length sortedArr) \<le> base + 1 then Some (sortedArr ! nat base)
           else Some (sortedArr ! nat base
                        + rest * (sortedArr ! nat (base + 1) - sortedArr ! nat base)))"

text \<open>
  \<^verbatim>\<open>computeRanges\<close>: the running minimum starts at \<^verbatim>\<open>Infinity\<close> and the running maximum
  at \<^verbatim>\<open>-Infinity\<close>, both \<^const>\<open>None\<close> here, which is also the \<^verbatim>\<open>null\<close> they are
  turned into when no item has a value for the key.
\<close>

definition stepMin :: "string \<Rightarrow> real option \<Rightarrow> 'a Result_scheme \<Rightarrow> real option" where
  "stepMin k m it =
     (case params it k of
        None \<Rightarrow> m
      | Some v \<Rightarrow> (case m of None \<Rightarrow> Some v | Some a \<Rightarrow> if v < a then Some v else Some a))"

definition stepMax :: "string \<Rightarrow> real option \<Rightarrow> 'a Result_scheme \<Rightarrow> real option" where
  "stepMax k m it =
     (case params it k of
        None \<Rightarrow> m
      | Some v \<Rightarrow> (case m of None \<Rightarrow> Some v | Some a \<Rightarrow> if v > a then Some v else Some a))"

definition computeRange :: "'a Result_scheme list \<Rightarrow> string \<Rightarrow> Range" where
  "computeRange items k =
     \<lparr>minv = foldl (stepMin k) None items, maxv = foldl (stepMax k) None items\<rparr>"

definition computeRanges :: "'a Result_scheme list \<Rightarrow> string list \<Rightarrow> (string \<rightharpoonup> Range)" where
  "computeRanges items keys = (\<lambda>k. if k \<in> set keys then Some (computeRange items k) else None)"

text \<open>
  \<^verbatim>\<open>normalizeParam(v, min, max)\<close>. With a value that is missing and a range that is not
  degenerate, \<^verbatim>\<open>(undefined - min) / (max - min)\<close> is \<^verbatim>\<open>NaN\<close> and so is its clamp;
  \<^const>\<open>None\<close> is that \<^verbatim>\<open>NaN\<close>.
\<close>

definition normalizeParam :: "real option \<Rightarrow> real option \<Rightarrow> real option \<Rightarrow> real option" where
  "normalizeParam v mn mx =
     (case mn of
        None \<Rightarrow> Some (1/2)
      | Some lo \<Rightarrow>
          (case mx of
             None \<Rightarrow> Some (1/2)
           | Some hi \<Rightarrow>
               if hi = lo then Some (1/2)
               else (case v of
                       None \<Rightarrow> None
                     | Some x \<Rightarrow> Some (clamp ((x - lo) / (hi - lo)) 0 1))))"

section \<open>buildHeatMap\<close>

subsection \<open>Configuration defaults\<close>

definition xParams :: "HeatMapConfig \<Rightarrow> string list" where
  "xParams config =
     (case xAxis config of None \<Rightarrow> [''x''] | Some ks \<Rightarrow> if ks \<noteq> [] then ks else [''x''])"

definition yParams :: "HeatMapConfig \<Rightarrow> string list" where
  "yParams config =
     (case yAxis config of None \<Rightarrow> [''y''] | Some ks \<Rightarrow> if ks \<noteq> [] then ks else [''y''])"

definition fixedOf :: "HeatMapConfig \<Rightarrow> (string \<times> real) list" where
  "fixedOf config = (case fixedParams config of None \<Rightarrow> [] | Some f \<Rightarrow> f)"

definition directionOf :: "HeatMapConfig \<Rightarrow> string" where
  "directionOf config =
     (case scoreDirection config of None \<Rightarrow> ''max'' | Some d \<Rightarrow> if d \<noteq> [] then d else ''max'')"

subsection \<open>Step 1: filtering\<close>

fun fixedOk :: "string set \<Rightarrow> Result \<Rightarrow> (string \<times> real) list \<Rightarrow> bool" where
  "fixedOk axisKeys it [] = True"
| "fixedOk axisKeys it ((k, v) # es) =
     (if k \<in> axisKeys then fixedOk axisKeys it es
      else if params it k \<noteq> Some v then False
      else fixedOk axisKeys it es)"

fun zoomOk :: "(string \<rightharpoonup> Range) \<Rightarrow> Result \<Rightarrow> string list \<Rightarrow> bool" where
  "zoomOk zr it [] = True"
| "zoomOk zr it (k # ks) =
     (case zr k of
        None \<Rightarrow> zoomOk zr it ks
      | Some r \<Rightarrow>
          (case minv r of
             None \<Rightarrow> zoomOk zr it ks
           | Some lo \<Rightarrow>
               (case maxv r of
                  None \<Rightarrow> zoomOk zr it ks
                | Some hi \<Rightarrow>
                    (case params it k of
                       None \<Rightarrow> False
                     | Some v \<Rightarrow> if v < lo \<or> v > hi then False else zoomOk zr it ks))))"

definition filterFixed :: "Result list \<Rightarrow> HeatMapConfig \<Rightarrow> Result list" where
  "filterFixed items config =
     (if fixedOf config \<noteq> []
      then filter (\<lambda>it. fixedOk (set (xParams config @ yParams config)) it (fixedOf config)) items
      else items)"

definition filterItems ::
  "Result list \<Rightarrow> HeatMapConfig \<Rightarrow> (string \<rightharpoonup> Range) option \<Rightarrow> Result list" where
  "filterItems items config zoom =
     (case zoom of
        None \<Rightarrow> filterFixed items config
      | Some zr \<Rightarrow>
          filter (\<lambda>it. zoomOk zr it (xParams config @ yParams config)) (filterFixed items config))"

subsection \<open>Step 2: grid side\<close>

definition desiredMin :: int where
  "desiredMin = 9"

definition desiredMax :: int where
  "desiredMax = min HEATMAP_MAX_SIZE 13"

definition gridSide :: "nat \<Rightarrow> int" where
  "gridSide n =
     (let base = round (clamp (sqrt (real (max n 1)) / 6) 0 1 * real_of_int (desiredMax - desiredMin)
                        + real_of_int desiredMin)
      in clamp base desiredMin desiredMax)"

subsection \<open>Step 3: coordinates\<close>

definition rangeValid :: "(string \<rightharpoonup> Range) \<Rightarrow> string list \<Rightarrow> bool" where
  "rangeValid ranges ks =
     list_ex (\<lambda>k. case ranges k of
                    None \<Rightarrow> False
                  | Some r \<Rightarrow> minv r \<noteq> None \<and> maxv r \<noteq> None \<and> maxv r \<noteq> minv r) ks"

definition useIndexCoords :: "string list \<Rightarrow> string list \<Rightarrow> Result list \<Rightarrow> bool" where
  "useIndexCoords xs ys filtered =
     (let ranges = computeRanges filtered (remdups (xs @ ys))
      in \<not> rangeValid ranges xs \<or> \<not> rangeValid ranges ys \<or> length filtered \<ge> 100)"

definition indexCoords :: "nat \<Rightarrow> nat \<Rightarrow> real \<times> real" where
  "indexCoords n index =
     (let cols = max 1 (nat \<lceil>sqrt (real n)\<rceil>);
          rows = max 1 (nat \<lceil>real n / real cols\<rceil>);
          col = index mod cols;
          row = index div cols;
          x = (if cols > 1 then real col / real (cols - 1) else 1/2);
          y = (if rows > 1 then real row / real (rows - 1) else 1/2)
      in (clamp x 0 1, clamp y 0 1))"

text \<open>
  \<^verbatim>\<open>vals.reduce((a, b) => a + b, 0) / Math.max(1, vals.length)\<close> over values that may be
  \<^verbatim>\<open>NaN\<close>: one \<^verbatim>\<open>NaN\<close> makes the sum \<^verbatim>\<open>NaN\<close>.
\<close>

fun sumVals :: "real option list \<Rightarrow> real option" where
  "sumVals [] = Some 0"
| "sumVals (None # vs) = None"
| "sumVals (Some v # vs) = (case sumVals vs of None \<Rightarrow> None | Some s \<Rightarrow> Some (v + s))"

definition axisCoord :: "(string \<rightharpoonup> Range) \<Rightarrow> Result \<Rightarrow> string list \<Rightarrow> real option" where
  "axisCoord ranges it ks =
     (let vals = map (\<lambda>k. normalizeParam (params it k)
                             (case ranges k of None \<Rightarrow> None | Some r \<Rightarrow> minv r)
                             (case ranges k of None \<Rightarrow> None | Some r \<Rightarrow> maxv r)) ks
      in case sumVals vals of
           None \<Rightarrow> None
         | Some s \<Rightarrow> Some (s / real (max 1 (length vals))))"

text \<open>
  The coordinates of one item, \<^const>\<open>None\<close> for \<^verbatim>\<open>NaN\<close>, and \<^verbatim>\<open>filtered.map((it, index) => ...)\<close>.
  \<^verbatim>\<open>withCoords\<close> is \<^const>\<open>None\<close> when some coordinate is \<^verbatim>\<open>NaN\<close>: such a
  coordinate stays \<^verbatim>\<open>NaN\<close> under \<^verbatim>\<open>clamp(c - center + 0.5)\<close> for every center, its bin
  index \<^verbatim>\<open>Math.min(X - 1, Math.max(0, Math.floor(NaN)))\<close> is \<^verbatim>\<open>NaN\<close>, and the
  binning loop raises the TypeError when it reaches the item at the latest.
\<close>

definition coordsOf ::
  "bool \<Rightarrow> string list \<Rightarrow> string list \<Rightarrow> (string \<rightharpoonup> Range) \<Rightarrow> nat \<Rightarrow> Result \<Rightarrow> nat
     \<Rightarrow> (real option \<times> real option)" where
  "coordsOf useIdx xs ys ranges n it index =
     (if useIdx then (Some (fst (indexCoords n index)), Some (snd (indexCoords n index)))
      else (axisCoord ranges it xs, axisCoord ranges it ys))"

fun withCoordsFrom ::
  "bool \<Rightarrow> string list \<Rightarrow> string list \<Rightarrow> (string \<rightharpoonup> Range) \<Rightarrow> nat \<Rightarrow> nat \<Rightarrow> Result list
     \<Rightarrow> Placed list option" where
  "withCoordsFrom useIdx xs ys ranges n index [] = Some []"
| "withCoordsFrom useIdx xs ys ranges n index (it # its) =
     (case coordsOf useIdx xs ys ranges n it index of
        (Some x, Some y) \<Rightarrow>
          (case withCoordsFrom useIdx xs ys ranges n (Suc index) its of
             None \<Rightarrow> None
           | Some rest \<Rightarrow> Some (Result.extend it \<lparr>xCoord = x, yCoord = y\<rparr> # rest))
      | _ \<Rightarrow> None)"

definition withCoords :: "string list \<Rightarrow> string list \<Rightarrow> Result list \<Rightarrow> Placed list option" where
  "withCoords xs ys filtered =
     withCoordsFrom (useIndexCoords xs ys filtered) xs ys
       (computeRanges filtered (remdups (xs @ ys))) (length filtered) 0 filtered"

subsection \<open>Step 4: centering\<close>

definition sortByScore :: "string \<Rightarrow> Placed list \<Rightarrow> Placed list" where
  "sortByScore direction ws =
     (if direction = ''min'' then sort_key score ws else sort_key (\<lambda>a. - score a) ws)"

definition topK :: "string \<Rightarrow> Placed list \<Rightarrow> Placed list" where
  "topK direction ws =
     (let sorted = sortByScore direction ws;
          k = max 10 (min (int (length sorted)) \<lfloor>real (length sorted) * (6/100)\<rfloor>)
      in take (nat k) sorted)"

definition center :: "bool \<Rightarrow> string \<Rightarrow> Placed list \<Rightarrow> (real \<times> real) option" where
  "center skipCentering direction ws =
     (if skipCentering then Some (1/2, 1/2)
      else
        let top = topK direction ws;
            topX = sort (map xCoord top);
            topY = sort (map yCoord top)
        in case quantile topX (1/2) of
             None \<Rightarrow> None
           | Some cx \<Rightarrow> (case quantile topY (1/2) of None \<Rightarrow> None | Some cy \<Rightarrow> Some (cx, cy)))"

definition centerItem :: "bool \<Rightarrow> real \<Rightarrow> real \<Rightarrow> Placed \<Rightarrow> Centered" where
  "centerItem skipCentering cx cy it =
     Placed.extend it
       \<lparr>xCentered = (if skipCentering then xCoord it else clamp (xCoord it - cx + 1/2) 0 1),
        yCentered = (if skipCentering then yCoord it else clamp (yCoord it - cy + 1/2) 0 1)\<rparr>"

subsection \<open>Step 5: binning\<close>

definition binIndex :: "int \<Rightarrow> real \<Rightarrow> nat" where
  "binIndex side c = nat (min (side - 1) (max 0 \<lfloor>c * real_of_int side\<rfloor>))"

definition pushCell :: "int \<Rightarrow> int \<Rightarrow> Centered list list list \<Rightarrow> Centered \<Rightarrow> Centered list list list" where
  "pushCell X Y buckets it =
     (let xi = binIndex X (xCentered it);
          yi = binIndex Y (yCentered it)
      in buckets[yi := (buckets ! yi)[xi := buckets ! yi ! xi @ [it]]])"

definition binAll :: "int \<Rightarrow> int \<Rightarrow> Centered list \<Rightarrow> Centered list list list" where
  "binAll X Y centered = foldl (pushCell X Y) (replicate (nat Y) (replicate (nat X) [])) centered"

subsection \<open>Steps 6 and 7: aggregation\<close>

definition stepLow :: "real option \<Rightarrow> real \<Rightarrow> real option" where
  "stepLow m s = (case m of None \<Rightarrow> Some s | Some a \<Rightarrow> if s < a then Some s else Some a)"

definition stepHigh :: "real option \<Rightarrow> real \<Rightarrow> real option" where
  "stepHigh m s = (case m of None \<Rightarrow> Some s | Some a \<Rightarrow> if s > a then Some s else Some a)"

definition cellZoom :: "Centered list \<Rightarrow> string list \<Rightarrow> (string \<rightharpoonup> Range) option" where
  "cellZoom bucket ks =
     (let zoomRangesForCell =
            (\<lambda>k. case computeRanges bucket ks k of
                   None \<Rightarrow> None
                 | Some r \<Rightarrow> if minv r = None then None else Some r)
      in if list_ex (\<lambda>k. zoomRangesForCell k \<noteq> None) ks then Some zoomRangesForCell else None)"

definition mkCell :: "string list \<Rightarrow> string list \<Rightarrow> nat \<Rightarrow> nat \<Rightarrow> Centered list \<Rightarrow> Cell" where
  "mkCell xs ys yi0 xi0 bucket =
     (if bucket = [] then
        \<lparr>xi = xi0, yi = yi0, count = 0, avgScore = None, minScore = None, maxScore = None,
         paramRangesX = computeRanges ([] :: Centered list) xs,
         paramRangesY = computeRanges ([] :: Centered list) ys,
         results = [], zoomRanges = None\<rparr>
      else
        \<lparr>xi = xi0, yi = yi0, count = length bucket,
         avgScore = Some (foldl (\<lambda>s b. s + score b) 0 bucket / real (length bucket)),
         minScore = foldl stepLow None (map score bucket),
         maxScore = foldl stepHigh None (map score bucket),
         paramRangesX = computeRanges bucket xs,
         paramRangesY = computeRanges bucket ys,
         results = bucket,
         zoomRanges = cellZoom bucket (xs @ ys)\<rparr>)"

definition mkMatrix :: "string list \<Rightarrow> string list \<Rightarrow> Centered list list list \<Rightarrow> Cell list list" where
  "mkMatrix xs ys buckets =
     map (\<lambda>(yi0, row). map (\<lambda>(xi0, bucket). mkCell xs ys yi0 xi0 bucket) (enumerate 0 row))
       (enumerate 0 buckets)"

definition minScoreOf :: "real list \<Rightarrow> real" where
  "minScoreOf allScores = (case allScores of [] \<Rightarrow> 0 | s # ss \<Rightarrow> fold min ss s)"

definition maxScoreOf :: "real list \<Rightarrow> real" where
  "maxScoreOf allScores = (case allScores of [] \<Rightarrow> 1 | s # ss \<Rightarrow> fold max ss s)"

subsection \<open>The engine\<close>

definition buildHeatMap ::
  "Result list \<Rightarrow> HeatMapConfig \<Rightarrow> (string \<rightharpoonup> Range) option \<Rightarrow> error + HeatMapMatrix option" where
  "buildHeatMap items config zoom =
     (if items = [] then Inr None
      else
        let xs = xParams config;
            ys = yParams config;
            filtered = filterItems items config zoom
        in if length filtered = 0 then Inr None
           else
             let X = gridSide (length filtered);
                 Y = gridSide (length filtered);
                 skipCentering = useIndexCoords xs ys filtered
             in case withCoords xs ys filtered of
                  None \<Rightarrow> Inl TypeError
                | Some ws \<Rightarrow>
                    (case center skipCentering (directionOf config) ws of
                       None \<Rightarrow> Inl TypeError
                     | Some (cx, cy) \<Rightarrow>
                         let centered = map (centerItem skipCentering cx cy) ws;
                             allScores = map score centered
                         in Inr (Some
                              \<lparr>N = length filtered, W = X, H = Y,
                               scoreMin = minScoreOf allScores,
                               scoreMax = maxScoreOf allScores,
                               centerX = cx, centerY = cy,
                               cells = mkMatrix xs ys (binAll X Y centered),
                               xKeys = xs, yKeys = ys\<rparr>)))"

section \<open>Notions used in the statements and proofs\<close>

text \<open>
  A grid of buckets has \<open>h\<close> rows of \<open>w\<close> buckets each; \<open>total\<close> counts the items it
  holds; \<open>inBin\<close> says that an item belongs to the bucket in row \<open>y\<close>, column \<open>x\<close>.
\<close>

definition shape :: "nat \<Rightarrow> nat \<Rightarrow> 'a list list \<Rightarrow> bool" where
  "shape w h bs \<longleftrightarrow> length bs = h \<and> (\<forall>row\<in>set bs. length row = w)"

definition total :: "'a list list list \<Rightarrow> nat" where
  "total bs = sum_list (map (\<lambda>row. sum_list (map length row)) bs)"

definition inBin :: "int \<Rightarrow> int \<Rightarrow> nat \<Rightarrow> nat \<Rightarrow> Centered \<Rightarrow> bool" where
  "inBin X Y y x it \<longleftrightarrow> binIndex Y (yCentered it) = y \<and> binIndex X (xCentered it) = x"

subsection \<open>Concrete inputs\<close>

text \<open>Two results with the same value on both axes, told apart by a third parameter.\<close>

definition a1 :: Result where
  "a1 = \<lparr>ident = ''a1'', params = [''x'' \<mapsto> 1, ''y'' \<mapsto> 1, ''z'' \<mapsto> 1], score = 1\<rparr>"

definition a2 :: Result where
  "a2 = \<lparr>ident = ''a2'', params = [''x'' \<mapsto> 1, ''y'' \<mapsto> 1, ''z'' \<mapsto> 2], score = 2\<rparr>"

text \<open>Two results that differ on both axes.\<close>

definition b1 :: Result where
  "b1 = \<lparr>ident = ''b1'', params = [''x'' \<mapsto> 1, ''y'' \<mapsto> 1], score = 1\<rparr>"

definition b2 :: Result where
  "b2 = \<lparr>ident = ''b2'', params = [''x'' \<mapsto> 2, ''y'' \<mapsto> 2], score = 2\<rparr>"

text \<open>A result without a value for \<^verbatim>\<open>x\<close>.\<close>

definition b3 :: Result where
  "b3 = \<lparr>ident = ''b3'', params = [''y'' \<mapsto> 3], score = 3\<rparr>"

text \<open>Configurations: both axes given, both axes defaulted, a fixed parameter, a two-key axis.\<close>

definition cfgXY :: HeatMapConfig where
  "cfgXY = \<lparr>xAxis = Some [''x''], yAxis = Some [''y''], fixedParams = None, scoreDirection = None\<rparr>"

definition cfgEmpty :: HeatMapConfig where
  "cfgEmpty = \<lparr>xAxis = None, yAxis = Some [], fixedParams = None, scoreDirection = None\<rparr>"

definition cfgFixed :: HeatMapConfig where
  "cfgFixed = \<lparr>xAxis = Some [''x''], yAxis = Some [''y''], fixedParams = Some [(''z'', 5)],
              scoreDirection = None\<rparr>"









text \<open>
  Configurations with one axis missing or empty and the other given.
\<close>

definition cfgNoX :: HeatMapConfig where
  "cfgNoX = \<lparr>xAxis = None, yAxis = Some [''y''], fixedParams = None, scoreDirection = None\<rparr>"

definition cfgNoY :: HeatMapConfig where
  "cfgNoY = \<lparr>xAxis = Some [''x''], yAxis = Some [], fixedParams = None, scoreDirection = None\<rparr>"


section \<open>Ranges\<close>

lemma foldl_stepMin_None:
  "foldl (stepMin k) m items = None \<longleftrightarrow> m = None \<and> (\<forall>it\<in>set items. params it k = None)"
  by (induction items arbitrary: m) (auto simp: stepMin_def split: option.splits)

lemma foldl_stepMax_None:
  "foldl (stepMax k) m items = None \<longleftrightarrow> m = None \<and> (\<forall>it\<in>set items. params it k = None)"
  by (induction items arbitrary: m) (auto simp: stepMax_def split: option.splits)

lemma stepMin_Some: "\<exists>c. stepMin k (Some a) it = Some c \<and> c \<le> a"
  by (simp add: stepMin_def split: option.splits)

lemma stepMax_Some: "\<exists>c. stepMax k (Some a) it = Some c \<and> a \<le> c"
  by (simp add: stepMax_def split: option.splits)

lemma foldl_stepMin_le_acc:
  "foldl (stepMin k) (Some a) items = Some b \<Longrightarrow> b \<le> a"
proof (induction items arbitrary: a)
  case Nil then show ?case by simp
next
  case (Cons it items)
  obtain c where c: "stepMin k (Some a) it = Some c" "c \<le> a"
    using stepMin_Some by blast
  with Cons.prems have "foldl (stepMin k) (Some c) items = Some b" by simp
  from Cons.IH[OF this] c show ?case by simp
qed

lemma foldl_stepMax_ge_acc:
  "foldl (stepMax k) (Some a) items = Some b \<Longrightarrow> a \<le> b"
proof (induction items arbitrary: a)
  case Nil then show ?case by simp
next
  case (Cons it items)
  obtain c where c: "stepMax k (Some a) it = Some c" "a \<le> c"
    using stepMax_Some by blast
  with Cons.prems have "foldl (stepMax k) (Some c) items = Some b" by simp
  from Cons.IH[OF this] c show ?case by simp
qed

lemma foldl_stepMin_lower:
  "it \<in> set items \<Longrightarrow> params it k = Some v \<Longrightarrow> \<exists>b. foldl (stepMin k) m items = Some b \<and> b \<le> v"
proof (induction items arbitrary: m)
  case Nil then show ?case by simp
next
  case (Cons a items)
  show ?case
  proof (cases "it = a")
    case True
    have "\<exists>c. stepMin k m a = Some c \<and> c \<le> v"
      using True Cons.prems(2) by (cases m) (simp_all add: stepMin_def)
    then obtain c where c: "stepMin k m a = Some c" "c \<le> v" by blast
    obtain b where b: "foldl (stepMin k) (Some c) items = Some b"
      using foldl_stepMin_None[of k "Some c" items] by (cases "foldl (stepMin k) (Some c) items") auto
    with foldl_stepMin_le_acc[OF b] c show ?thesis by auto
  next
    case False
    then show ?thesis using Cons by auto
  qed
qed

lemma foldl_stepMax_upper:
  "it \<in> set items \<Longrightarrow> params it k = Some v \<Longrightarrow> \<exists>b. foldl (stepMax k) m items = Some b \<and> v \<le> b"
proof (induction items arbitrary: m)
  case Nil then show ?case by simp
next
  case (Cons a items)
  show ?case
  proof (cases "it = a")
    case True
    have "\<exists>c. stepMax k m a = Some c \<and> v \<le> c"
      using True Cons.prems(2) by (cases m) (simp_all add: stepMax_def)
    then obtain c where c: "stepMax k m a = Some c" "v \<le> c" by blast
    obtain b where b: "foldl (stepMax k) (Some c) items = Some b"
      using foldl_stepMax_None[of k "Some c" items] by (cases "foldl (stepMax k) (Some c) items") auto
    with foldl_stepMax_ge_acc[OF b] c show ?thesis by auto
  next
    case False
    then show ?thesis using Cons by auto
  qed
qed

lemma foldl_stepMin_attained:
  "foldl (stepMin k) m items = Some b \<Longrightarrow> m = Some b \<or> (\<exists>it\<in>set items. params it k = Some b)"
proof (induction items arbitrary: m)
  case Nil then show ?case by simp
next
  case (Cons a items)
  from Cons.IH[of "stepMin k m a"] Cons.prems
  have "stepMin k m a = Some b \<or> (\<exists>it\<in>set items. params it k = Some b)" by simp
  then show ?case by (auto simp: stepMin_def split: option.splits if_splits)
qed

lemma foldl_stepMax_attained:
  "foldl (stepMax k) m items = Some b \<Longrightarrow> m = Some b \<or> (\<exists>it\<in>set items. params it k = Some b)"
proof (induction items arbitrary: m)
  case Nil then show ?case by simp
next
  case (Cons a items)
  from Cons.IH[of "stepMax k m a"] Cons.prems
  have "stepMax k m a = Some b \<or> (\<exists>it\<in>set items. params it k = Some b)" by simp
  then show ?case by (auto simp: stepMax_def split: option.splits if_splits)
qed

lemma computeRange_min_None:
  "minv (computeRange items k) = None \<longleftrightarrow> (\<forall>it\<in>set items. params it k = None)"
  by (simp add: computeRange_def foldl_stepMin_None)

lemma computeRange_max_None:
  "maxv (computeRange items k) = None \<longleftrightarrow> (\<forall>it\<in>set items. params it k = None)"
  by (simp add: computeRange_def foldl_stepMax_None)

lemma computeRange_bounds:
  assumes "it \<in> set items" "params it k = Some v"
  shows "\<exists>a b. minv (computeRange items k) = Some a \<and> maxv (computeRange items k) = Some b
           \<and> a \<le> v \<and> v \<le> b"
  using foldl_stepMin_lower[OF assms, of None] foldl_stepMax_upper[OF assms, of None]
  by (auto simp: computeRange_def)

lemma computeRange_min_attained:
  "minv (computeRange items k) = Some a \<Longrightarrow> \<exists>it\<in>set items. params it k = Some a"
  using foldl_stepMin_attained[of k None items a] by (simp add: computeRange_def)

lemma computeRange_max_attained:
  "maxv (computeRange items k) = Some b \<Longrightarrow> \<exists>it\<in>set items. params it k = Some b"
  using foldl_stepMax_attained[of k None items b] by (simp add: computeRange_def)

lemma computeRange_min_le_max:
  assumes "minv (computeRange items k) = Some a" "maxv (computeRange items k) = Some b"
  shows "a \<le> b"
proof -
  obtain it where "it \<in> set items" "params it k = Some a"
    using computeRange_min_attained[OF assms(1)] by blast
  from computeRange_bounds[OF this] assms show ?thesis by auto
qed

section \<open>Binning and the matrix\<close>

lemma buildHeatMap_SomeE:
  assumes "buildHeatMap items config zoom = Inr (Some m)"
  obtains ws cx cy where
    "filterItems items config zoom \<noteq> []"
    "withCoords (xParams config) (yParams config) (filterItems items config zoom) = Some ws"
    "center (useIndexCoords (xParams config) (yParams config) (filterItems items config zoom))
       (directionOf config) ws = Some (cx, cy)"
    "m = \<lparr>N = length (filterItems items config zoom),
          W = gridSide (length (filterItems items config zoom)),
          H = gridSide (length (filterItems items config zoom)),
          scoreMin = minScoreOf (map score (map (centerItem (useIndexCoords (xParams config) (yParams config) (filterItems items config zoom)) cx cy) ws)),
          scoreMax = maxScoreOf (map score (map (centerItem (useIndexCoords (xParams config) (yParams config) (filterItems items config zoom)) cx cy) ws)),
          centerX = cx, centerY = cy,
          cells = mkMatrix (xParams config) (yParams config)
                    (binAll (gridSide (length (filterItems items config zoom)))
                       (gridSide (length (filterItems items config zoom)))
                       (map (centerItem (useIndexCoords (xParams config) (yParams config) (filterItems items config zoom)) cx cy) ws)),
          xKeys = xParams config, yKeys = yParams config\<rparr>"
  using assms unfolding buildHeatMap_def Let_def
  by (auto split: if_splits option.splits prod.splits)

lemma gridSide_bounds: "9 \<le> gridSide n \<and> gridSide n \<le> 13"
  by (simp add: gridSide_def clamp_def desiredMin_def desiredMax_def HEATMAP_MAX_SIZE_def Let_def)

lemma binIndex_lt: "0 < side \<Longrightarrow> binIndex side c < nat side"
  by (simp add: binIndex_def)

lemma shape_replicate: "shape w h (replicate h (replicate w []))"
  by (simp add: shape_def)

lemma total_replicate: "total (replicate h (replicate w [])) = 0"
  by (simp add: total_def)

lemma shape_pushCell:
  assumes "shape w h bs"
  shows "shape w h (pushCell X Y bs it)"
proof (cases "binIndex Y (yCentered it) < length bs")
  case True
  then show ?thesis
    using assms unfolding shape_def pushCell_def Let_def
    by (auto dest!: set_update_subset_insert[THEN subsetD])
next
  case False
  then show ?thesis using assms by (simp add: pushCell_def Let_def list_update_beyond)
qed

lemma sum_list_update_nat:
  "k < length xs \<Longrightarrow> sum_list (xs[k := x]) + xs ! k = sum_list xs + (x::nat)"
  by (induction xs arbitrary: k) (auto split: nat.splits)

lemma total_pushCell:
  assumes "shape (nat X) (nat Y) bs" "0 < X" "0 < Y"
  shows "total (pushCell X Y bs it) = Suc (total bs)"
proof -
  define x where "x = binIndex X (xCentered it)"
  define y where "y = binIndex Y (yCentered it)"
  have y: "y < length bs" using assms binIndex_lt[of Y] by (simp add: y_def shape_def)
  then have x: "x < length (bs ! y)" using assms binIndex_lt[of X] by (simp add: x_def shape_def)
  let ?f = "\<lambda>row. sum_list (map length row)"
  have row: "?f ((bs ! y)[x := bs ! y ! x @ [it]]) = Suc (?f (bs ! y))"
    using sum_list_update_nat[of x "map length (bs ! y)" "length (bs ! y ! x @ [it])"] x
    by (simp add: map_update)
  have "total (bs[y := (bs ! y)[x := bs ! y ! x @ [it]]]) + ?f (bs ! y) = total bs + Suc (?f (bs ! y))"
    using sum_list_update_nat[of y "map ?f bs" "?f ((bs ! y)[x := bs ! y ! x @ [it]])"] y row
    by (simp add: total_def map_update)
  then show ?thesis by (simp add: pushCell_def x_def y_def Let_def)
qed

lemma foldl_pushCell:
  assumes "shape (nat X) (nat Y) bs" "0 < X" "0 < Y"
  shows "shape (nat X) (nat Y) (foldl (pushCell X Y) bs cs)
         \<and> total (foldl (pushCell X Y) bs cs) = total bs + length cs"
  using assms(1)
proof (induction cs arbitrary: bs)
  case Nil then show ?case by simp
next
  case (Cons c cs)
  have s: "shape (nat X) (nat Y) (pushCell X Y bs c)" using Cons.prems by (rule shape_pushCell)
  show ?case using Cons.IH[OF s] total_pushCell[OF Cons.prems assms(2,3)] by simp
qed

lemma binAll_shape: "0 < X \<Longrightarrow> 0 < Y \<Longrightarrow> shape (nat X) (nat Y) (binAll X Y cs)"
  using foldl_pushCell[OF shape_replicate] by (simp add: binAll_def)

lemma binAll_total: "0 < X \<Longrightarrow> 0 < Y \<Longrightarrow> total (binAll X Y cs) = length cs"
  using foldl_pushCell[OF shape_replicate] by (simp add: binAll_def total_replicate)

lemma pushCell_nth:
  assumes "shape (nat X) (nat Y) bs" "0 < X" "0 < Y" "y < nat Y" "x < nat X"
  shows "pushCell X Y bs it ! y ! x = bs ! y ! x @ (if inBin X Y y x it then [it] else [])"
proof -
  define x' where "x' = binIndex X (xCentered it)"
  define y' where "y' = binIndex Y (yCentered it)"
  have y': "y' < length bs" using assms binIndex_lt[of Y] by (simp add: y'_def shape_def)
  then have x': "x' < length (bs ! y')" using assms binIndex_lt[of X] by (simp add: x'_def shape_def)
  have y: "y < length bs" using assms by (simp add: shape_def)
  then have x: "x < length (bs ! y)" using assms by (simp add: shape_def)
  show ?thesis using x y x' y'
    by (auto simp: pushCell_def Let_def inBin_def x'_def[symmetric] y'_def[symmetric] nth_list_update)
qed

lemma foldl_pushCell_nth:
  assumes "0 < X" "0 < Y" "y < nat Y" "x < nat X"
  shows "shape (nat X) (nat Y) bs \<Longrightarrow>
         foldl (pushCell X Y) bs cs ! y ! x = bs ! y ! x @ filter (inBin X Y y x) cs"
proof (induction cs arbitrary: bs)
  case Nil then show ?case by simp
next
  case (Cons c cs)
  have s: "shape (nat X) (nat Y) (pushCell X Y bs c)" using Cons.prems by (rule shape_pushCell)
  show ?case using Cons.IH[OF s] pushCell_nth[OF Cons.prems assms] by simp
qed

lemma binAll_nth:
  assumes "0 < X" "0 < Y" "y < nat Y" "x < nat X"
  shows "binAll X Y cs ! y ! x = filter (inBin X Y y x) cs"
  using foldl_pushCell_nth[OF assms shape_replicate] assms by (simp add: binAll_def)

lemma count_mkCell: "count (mkCell xs ys y x b) = length b"
  by (simp add: mkCell_def)

lemma results_mkCell: "results (mkCell xs ys y x b) = b"
  by (simp add: mkCell_def)

lemma row_counts: "map (count \<circ> (\<lambda>(x, b). mkCell xs ys y x b)) (enumerate n row) = map length row"
  by (induction row arbitrary: n) (simp_all add: count_mkCell)

lemma mkMatrix_counts_from:
  "map ((\<lambda>row. sum_list (map count row)) \<circ>
        (\<lambda>(y, row). map (\<lambda>(x, b). mkCell xs ys y x b) (enumerate 0 row))) (enumerate n bs)
   = map (\<lambda>row. sum_list (map length row)) bs"
  by (induction bs arbitrary: n) (simp_all add: row_counts)

lemma mkMatrix_counts:
  "sum_list (map (\<lambda>row. sum_list (map count row)) (mkMatrix xs ys bs)) = total bs"
  by (simp add: mkMatrix_def total_def mkMatrix_counts_from)

lemma length_mkMatrix: "length (mkMatrix xs ys bs) = length bs"
  by (simp add: mkMatrix_def)

lemma mkMatrix_nth:
  "y < length bs \<Longrightarrow> x < length (bs ! y) \<Longrightarrow> mkMatrix xs ys bs ! y ! x = mkCell xs ys y x (bs ! y ! x)"
  by (simp add: mkMatrix_def nth_enumerate_eq)

lemma length_mkMatrix_row:
  "y < length bs \<Longrightarrow> length (mkMatrix xs ys bs ! y) = length (bs ! y)"
  by (simp add: mkMatrix_def nth_enumerate_eq)

lemma mkMatrix_cellE:
  assumes "row \<in> set (mkMatrix xs ys bs)" "c \<in> set row"
  obtains y x where "y < length bs" "x < length (bs ! y)" "c = mkCell xs ys y x (bs ! y ! x)"
proof -
  from assms(1) obtain y where y: "y < length bs" "row = mkMatrix xs ys bs ! y"
    by (auto simp: in_set_conv_nth length_mkMatrix)
  with assms(2) obtain x where x: "x < length (bs ! y)" "c = row ! x"
    by (auto simp: in_set_conv_nth length_mkMatrix_row)
  with y have "c = mkCell xs ys y x (bs ! y ! x)" by (simp add: mkMatrix_nth)
  with y x that show thesis by blast
qed

lemma withCoordsFrom_length:
  "withCoordsFrom u xs ys r n i its = Some ws \<Longrightarrow> length ws = length its"
  by (induction its arbitrary: i ws) (auto split: prod.splits option.splits)

lemma mkMatrix_row_lengths:
  "row \<in> set (mkMatrix xs ys bs) \<Longrightarrow> \<exists>b\<in>set bs. length row = length b"
  by (auto simp: mkMatrix_def enumerate_eq_zip dest: set_zip_rightD)

section \<open>When the engine returns\<close>

lemma quantile_half_Some: "\<exists>c. quantile xs (1/2) = Some c"
proof (cases "xs = []")
  case True then show ?thesis by (simp add: quantile_def)
next
  case False
  define pos where "pos = real (length xs - Suc 0) / 2"
  have "0 \<le> pos" by (simp add: pos_def)
  then have lo: "0 \<le> \<lfloor>pos\<rfloor>" by simp
  have "pos < real (length xs)" using False by (cases xs) (simp_all add: pos_def)
  then have hi: "\<lfloor>pos\<rfloor> < int (length xs)" by linarith
  show ?thesis using False lo hi unfolding pos_def
    by (simp add: quantile_def Let_def)
qed

lemma center_Some: "\<exists>cx cy. center skip d ws = Some (cx, cy)"
proof -
  obtain cx where cx: "quantile (sort (map xCoord (topK d ws))) (1/2) = Some cx"
    using quantile_half_Some by blast
  obtain cy where cy: "quantile (sort (map yCoord (topK d ws))) (1/2) = Some cy"
    using quantile_half_Some by blast
  show ?thesis
  proof (cases skip)
    case True
    have "center skip d ws = Some (1/2, 1/2)" using True by (simp add: center_def)
    then show ?thesis by blast
  next
    case False
    have "center skip d ws = Some (cx, cy)" using False by (simp add: center_def Let_def cx cy)
    then show ?thesis by blast
  qed
qed

lemma buildHeatMap_returns:
  assumes "filterItems items config zoom \<noteq> []"
    and "withCoords (xParams config) (yParams config) (filterItems items config zoom) = Some ws"
  shows "\<exists>m. buildHeatMap items config zoom = Inr (Some m)"
proof -
  obtain cx cy where
    "center (useIndexCoords (xParams config) (yParams config) (filterItems items config zoom))
       (directionOf config) ws = Some (cx, cy)"
    using center_Some by blast
  moreover have "items \<noteq> []"
    using assms(1) by (auto simp: filterItems_def filterFixed_def split: option.splits if_splits)
  ultimately show ?thesis using assms by (simp add: buildHeatMap_def Let_def)
qed

lemma buildHeatMap_null_iff:
  "buildHeatMap items config zoom = Inr None \<longleftrightarrow> filterItems items config zoom = []"
proof -
  have e: "items = [] \<Longrightarrow> filterItems items config zoom = []"
    by (simp add: filterItems_def filterFixed_def split: option.splits)
  show ?thesis using e
    by (auto simp: buildHeatMap_def Let_def split: option.splits prod.splits)
qed

lemma buildHeatMap_throws_iff:
  "buildHeatMap items config zoom = Inl TypeError \<longleftrightarrow>
     filterItems items config zoom \<noteq> [] \<and>
     withCoords (xParams config) (yParams config) (filterItems items config zoom) = None"
proof -
  have e: "items = [] \<Longrightarrow> filterItems items config zoom = []"
    by (simp add: filterItems_def filterFixed_def split: option.splits)
  have c: "\<And>ws. center (useIndexCoords (xParams config) (yParams config) (filterItems items config zoom))
       (directionOf config) ws \<noteq> None"
    using center_Some by (metis option.distinct(1))
  show ?thesis using e
    by (auto simp: buildHeatMap_def Let_def c split: option.splits prod.splits)
qed

lemma withCoordsFrom_index:
  "withCoordsFrom True xs ys r n i its =
     Some (map (\<lambda>(j, it). Result.extend it \<lparr>xCoord = fst (indexCoords n j), yCoord = snd (indexCoords n j)\<rparr>)
            (enumerate i its))"
  by (induction its arbitrary: i) (simp_all add: coordsOf_def)







lemma withCoords_index:
  "useIndexCoords xs ys its \<Longrightarrow>
   withCoords xs ys its =
     Some (map (\<lambda>(j, it). Result.extend it \<lparr>xCoord = fst (indexCoords (length its) j),
                                              yCoord = snd (indexCoords (length its) j)\<rparr>)
            (enumerate 0 its))"
  by (simp add: withCoords_def withCoordsFrom_index)

lemma gridSide_eq:
  "gridSide n = (if n < 6 then 10 else if n < 15 then 11 else if n < 28 then 12 else 13)"
proof -
  define s where "s = sqrt (real (max n 1))"
  have s0: "0 \<le> s" by (simp add: s_def)
  have g: "gridSide n = clamp (round (clamp (s / 6) 0 1 * 4 + 9)) 9 13"
    by (simp add: gridSide_def s_def desiredMin_def desiredMax_def HEATMAP_MAX_SIZE_def Let_def)
  have lower: "\<And>a. 0 \<le> a \<Longrightarrow> a\<^sup>2 \<le> real (max n 1) \<Longrightarrow> a \<le> s"
    unfolding s_def by (rule real_le_rsqrt)
  have upper: "\<And>a. 0 \<le> a \<Longrightarrow> real (max n 1) < a\<^sup>2 \<Longrightarrow> s < a"
    unfolding s_def by (rule real_less_lsqrt)
  consider "n < 6" | "6 \<le> n" "n < 15" | "15 \<le> n" "n < 28" | "28 \<le> n" by linarith
  then show ?thesis
  proof cases
    case 1
    have "1 \<le> s" using lower[of 1] by simp
    moreover have "s < 9/4" using upper[of "9/4"] 1 by (simp add: power2_eq_square)
    ultimately have "round (clamp (s / 6) 0 1 * 4 + 9) = 10"
      by (intro round_unique) (simp_all add: clamp_def)
    then show ?thesis using 1 by (simp add: g clamp_def)
  next
    case 2
    have "9/4 \<le> s" using lower[of "9/4"] 2 by (simp add: power2_eq_square)
    moreover have "s < 15/4" using upper[of "15/4"] 2 by (simp add: power2_eq_square)
    ultimately have "round (clamp (s / 6) 0 1 * 4 + 9) = 11"
      by (intro round_unique) (simp_all add: clamp_def)
    then show ?thesis using 2 by (simp add: g clamp_def)
  next
    case 3
    have "15/4 \<le> s" using lower[of "15/4"] 3 by (simp add: power2_eq_square)
    moreover have "s < 21/4" using upper[of "21/4"] 3 by (simp add: power2_eq_square)
    ultimately have "round (clamp (s / 6) 0 1 * 4 + 9) = 12"
      by (intro round_unique) (simp_all add: clamp_def)
    then show ?thesis using 3 by (simp add: g clamp_def)
  next
    case 4
    have "21/4 \<le> s" using lower[of "21/4"] 4 by (simp add: power2_eq_square)
    then have "round (clamp (s / 6) 0 1 * 4 + 9) = 13"
      by (intro round_unique) (simp_all add: clamp_def min_def)
    then show ?thesis using 4 by (simp add: g clamp_def)
  qed
qed

lemma ceiling_sqrt:
  assumes "0 < c" "(c - 1)\<^sup>2 < n" "n \<le> c\<^sup>2"
  shows "nat \<lceil>sqrt (real n)\<rceil> = c"
proof -
  have "real c - 1 < sqrt (real n)"
  proof -
    have "real ((c - 1)\<^sup>2) < real n" using assms(2) by (simp only: of_nat_less_iff)
    then have "(real (c - 1))\<^sup>2 < real n" by simp
    then have "real (c - 1) < sqrt (real n)" by (rule real_less_rsqrt)
    then show ?thesis using assms(1) by (simp add: of_nat_diff)
  qed
  moreover have "sqrt (real n) \<le> real c"
  proof -
    have "real n \<le> real (c\<^sup>2)" using assms(3) by (simp only: of_nat_le_iff)
    then have "real n \<le> (real c)\<^sup>2" by simp
    then show ?thesis by (intro real_le_lsqrt) simp_all
  qed
  ultimately have "\<lceil>sqrt (real n)\<rceil> = int c"
    by (intro ceiling_unique) simp_all
  then show ?thesis by simp
qed

lemma buildHeatMap_cell:
  assumes "buildHeatMap items config zoom = Inr (Some m)"
    and "withCoords (xParams config) (yParams config) (filterItems items config zoom) = Some ws"
    and "center (useIndexCoords (xParams config) (yParams config) (filterItems items config zoom))
           (directionOf config) ws = Some (cx, cy)"
    and "y < nat (H m)" "x < nat (W m)"
  shows "cells m ! y ! x =
           mkCell (xParams config) (yParams config) y x
             (filter (inBin (W m) (H m) y x)
                (map (centerItem (useIndexCoords (xParams config) (yParams config)
                        (filterItems items config zoom)) cx cy) ws))"
proof -
  from assms(1) obtain ws' cx' cy' where
    "withCoords (xParams config) (yParams config) (filterItems items config zoom) = Some ws'"
    "center (useIndexCoords (xParams config) (yParams config) (filterItems items config zoom))
       (directionOf config) ws' = Some (cx', cy')"
    and m: "m = \<lparr>N = length (filterItems items config zoom),
          W = gridSide (length (filterItems items config zoom)),
          H = gridSide (length (filterItems items config zoom)),
          scoreMin = minScoreOf (map score (map (centerItem (useIndexCoords (xParams config) (yParams config) (filterItems items config zoom)) cx' cy') ws')),
          scoreMax = maxScoreOf (map score (map (centerItem (useIndexCoords (xParams config) (yParams config) (filterItems items config zoom)) cx' cy') ws')),
          centerX = cx', centerY = cy',
          cells = mkMatrix (xParams config) (yParams config)
                    (binAll (gridSide (length (filterItems items config zoom)))
                       (gridSide (length (filterItems items config zoom)))
                       (map (centerItem (useIndexCoords (xParams config) (yParams config) (filterItems items config zoom)) cx' cy') ws')),
          xKeys = xParams config, yKeys = yParams config\<rparr>"
    by (rule buildHeatMap_SomeE)
  with assms(2,3) have eq: "ws' = ws" "cx' = cx" "cy' = cy" by simp_all
  define g where "g = gridSide (length (filterItems items config zoom))"
  have pos: "0 < g" using gridSide_bounds[of "length (filterItems items config zoom)"] by (simp add: g_def)
  have y: "y < nat g" and x: "x < nat g" using assms(4,5) by (simp_all add: m g_def)
  have sh: "shape (nat g) (nat g) (binAll g g cs)" for cs using binAll_shape[OF pos pos] .
  have "length (binAll g g cs) = nat g" for cs using sh by (simp add: shape_def)
  moreover have "length (binAll g g cs ! y) = nat g" for cs
    using sh[of cs] y by (simp add: shape_def)
  ultimately show ?thesis using x y binAll_nth[OF pos pos y x]
    by (simp add: m eq g_def[symmetric] mkMatrix_nth)
qed

section \<open>The concrete inputs\<close>

lemma xParams_cfgXY: "xParams cfgXY = [''x'']" "yParams cfgXY = [''y'']"
  by (simp_all add: xParams_def yParams_def cfgXY_def)

lemma misc_cfgXY: "fixedOf cfgXY = []" "directionOf cfgXY = ''max''"
  by (simp_all add: fixedOf_def directionOf_def cfgXY_def)

lemma filterItems_cfgXY: "filterItems items cfgXY None = items"
  by (simp add: filterItems_def filterFixed_def misc_cfgXY)

lemma indexCoords_two:
  "indexCoords (Suc (Suc 0)) 0 = (0, 1/2)" "indexCoords (Suc (Suc 0)) (Suc 0) = (1, 1/2)"
  using ceiling_sqrt[of 2 2] by (simp_all add: indexCoords_def Let_def clamp_def numeral_2_eq_2)

lemma useIndexCoords_exA: "useIndexCoords [''x''] [''y''] [a1, a2]"
  by (simp add: useIndexCoords_def rangeValid_def computeRanges_def computeRange_def
      stepMin_def stepMax_def a1_def a2_def)

lemma withCoords_exA:
  "withCoords [''x''] [''y''] [a1, a2] =
     Some [Result.extend a1 \<lparr>xCoord = 0, yCoord = 1/2\<rparr>, Result.extend a2 \<lparr>xCoord = 1, yCoord = 1/2\<rparr>]"
  by (simp add: withCoords_index[OF useIndexCoords_exA] enumerate_eq_zip indexCoords_two upt_rec)

lemma returns_exA: "\<exists>m. buildHeatMap [a1, a2] cfgXY None = Inr (Some m)"
  using buildHeatMap_returns[of "[a1, a2]" cfgXY None]
  by (simp add: filterItems_cfgXY xParams_cfgXY withCoords_exA)

lemma not_useIndexCoords_exB: "\<not> useIndexCoords [''x''] [''y''] [b1, b2]"
  by (simp add: useIndexCoords_def rangeValid_def computeRanges_def computeRange_def
      stepMin_def stepMax_def b1_def b2_def)

lemma coordsOf_exB:
  "coordsOf False [''x''] [''y''] (computeRanges [b1, b2] [''x'', ''y'']) n b1 i = (Some 0, Some 0)"
  "coordsOf False [''x''] [''y''] (computeRanges [b1, b2] [''x'', ''y'']) n b2 i = (Some 1, Some 1)"
  by (simp_all add: coordsOf_def axisCoord_def normalizeParam_def computeRanges_def computeRange_def
      stepMin_def stepMax_def clamp_def b1_def b2_def)

lemma withCoords_exB:
  "withCoords [''x''] [''y''] [b1, b2] =
     Some [Result.extend b1 \<lparr>xCoord = 0, yCoord = 0\<rparr>, Result.extend b2 \<lparr>xCoord = 1, yCoord = 1\<rparr>]"
  by (simp add: withCoords_def not_useIndexCoords_exB coordsOf_exB)

lemma returns_exB: "\<exists>m. buildHeatMap [b1, b2] cfgXY None = Inr (Some m)"
  using buildHeatMap_returns[of "[b1, b2]" cfgXY None]
  by (simp add: filterItems_cfgXY xParams_cfgXY withCoords_exB)

section \<open>Zoom ranges only matter on axis keys\<close>

lemma zoomOk_cong:
  "\<forall>k\<in>set ks. zr k = zr' k \<Longrightarrow> zoomOk zr it ks = zoomOk zr' it ks"
  by (induction ks) (simp_all split: option.splits)

lemma zoomOk_none: "\<forall>k\<in>set ks. zr k = None \<Longrightarrow> zoomOk zr it ks"
  by (induction ks) simp_all

lemma filterItems_zoom_cong:
  assumes "\<forall>k\<in>set (xParams config @ yParams config). zr k = zr' k"
  shows "filterItems items config (Some zr) = filterItems items config (Some zr')"
  using zoomOk_cong[OF assms] by (simp add: filterItems_def)

lemma buildHeatMap_filter_cong:
  assumes "filterItems items config zoom = filterItems items config zoom'"
  shows "buildHeatMap items config zoom = buildHeatMap items config zoom'"
  using assms by (simp add: buildHeatMap_def)

section \<open>The top of the ranking\<close>

lemma useIndexCoords_large: "100 \<le> length F \<Longrightarrow> useIndexCoords xs ys F"
  by (simp add: useIndexCoords_def Let_def)

lemma length_sortByScore: "length (sortByScore d ws) = length ws"
  by (simp add: sortByScore_def)

lemma topK_small:
  assumes "length ws < 100"
  shows "topK d ws = take 10 (sortByScore d ws)" "length (topK d ws) = min (length ws) 10"
proof -
  have "real (length ws) * (6/100) < 6" using assms by simp
  then have fl: "\<lfloor>real (length ws) * (6/100)\<rfloor> < 6" by linarith
  have "max 10 (min a b) = 10" if "b < 6" for a b :: int using that by simp
  from this[OF fl]
  have k: "max 10 (min (int (length ws)) \<lfloor>real (length ws) * (6/100)\<rfloor>) = 10" .
  show "topK d ws = take 10 (sortByScore d ws)"
    unfolding topK_def Let_def length_sortByScore k by simp
  then show "length (topK d ws) = min (length ws) 10" by (simp add: length_sortByScore)
qed

section \<open>Defaults of the configuration\<close>

lemma buildHeatMap_config_cong:
  assumes "xParams c = xParams c'" "yParams c = yParams c'" "fixedOf c = fixedOf c'"
    "directionOf c = directionOf c'"
  shows "buildHeatMap items c zoom = buildHeatMap items c' zoom"
proof -
  have "filterFixed items c = filterFixed items c'" using assms by (simp add: filterFixed_def)
  then have F: "filterItems items c zoom = filterItems items c' zoom"
    using assms by (simp add: filterItems_def split: option.splits)
  show ?thesis unfolding buildHeatMap_def F assms(1,2,4) ..
qed

section \<open>Further lemmas on ranges, cells and zooming\<close>

lemma Range_eq: "r = \<lparr>minv = a, maxv = b\<rparr> \<longleftrightarrow> minv r = a \<and> maxv r = b"
  by (cases r) auto

lemma rangeValid_iff:
  assumes "set ks \<subseteq> set keys"
  shows "rangeValid (computeRanges F keys) ks \<longleftrightarrow>
         (\<exists>k\<in>set ks. \<exists>lo hi. computeRange F k = \<lparr>minv = Some lo, maxv = Some hi\<rparr> \<and> lo < hi)"
proof -
  have "(minv (computeRange F k) \<noteq> None \<and> maxv (computeRange F k) \<noteq> None \<and>
         maxv (computeRange F k) \<noteq> minv (computeRange F k)) \<longleftrightarrow>
        (\<exists>lo hi. computeRange F k = \<lparr>minv = Some lo, maxv = Some hi\<rparr> \<and> lo < hi)" for k
  proof
    assume a: "minv (computeRange F k) \<noteq> None \<and> maxv (computeRange F k) \<noteq> None \<and>
         maxv (computeRange F k) \<noteq> minv (computeRange F k)"
    then obtain lo hi where lh: "minv (computeRange F k) = Some lo" "maxv (computeRange F k) = Some hi"
      by auto
    with a have "lo \<noteq> hi" by auto
    with computeRange_min_le_max[OF lh] have "lo < hi" by simp
    with lh show "\<exists>lo hi. computeRange F k = \<lparr>minv = Some lo, maxv = Some hi\<rparr> \<and> lo < hi"
      by (auto simp: Range_eq)
  next
    assume "\<exists>lo hi. computeRange F k = \<lparr>minv = Some lo, maxv = Some hi\<rparr> \<and> lo < hi"
    then show "minv (computeRange F k) \<noteq> None \<and> maxv (computeRange F k) \<noteq> None \<and>
         maxv (computeRange F k) \<noteq> minv (computeRange F k)"
      by (auto simp: Range_eq)
  qed
  note eq = this
  have rv: "rangeValid (computeRanges F keys) ks \<longleftrightarrow>
      (\<exists>k\<in>set ks. minv (computeRange F k) \<noteq> None \<and> maxv (computeRange F k) \<noteq> None \<and>
         maxv (computeRange F k) \<noteq> minv (computeRange F k))"
    using assms by (auto simp: rangeValid_def list_ex_iff computeRanges_def)
  show ?thesis by (simp only: rv eq)
qed

lemma useIndexCoords_iff:
  "useIndexCoords xs ys F \<longleftrightarrow>
     \<not> (\<exists>k\<in>set xs. \<exists>lo hi. computeRange F k = \<lparr>minv = Some lo, maxv = Some hi\<rparr> \<and> lo < hi) \<or>
     \<not> (\<exists>k\<in>set ys. \<exists>lo hi. computeRange F k = \<lparr>minv = Some lo, maxv = Some hi\<rparr> \<and> lo < hi) \<or>
     100 \<le> length F"
proof -
  have x: "set xs \<subseteq> set (remdups (xs @ ys))" and y: "set ys \<subseteq> set (remdups (xs @ ys))" by auto
  show ?thesis
    unfolding useIndexCoords_def Let_def rangeValid_iff[OF x] rangeValid_iff[OF y] ..
qed


lemma count_shape:
  assumes "buildHeatMap items config zoom = Inr (Some m)"
  shows "length (cells m) = nat (H m)" "\<forall>row\<in>set (cells m). length row = nat (W m)"
proof -
  from assms obtain cs where
    c: "cells m = mkMatrix (xParams config) (yParams config) (binAll (W m) (H m) cs)"
    and wh: "W m = gridSide (length (filterItems items config zoom))"
            "H m = gridSide (length (filterItems items config zoom))"
    by (auto elim!: buildHeatMap_SomeE)
  have pos: "0 < W m" "0 < H m"
    using gridSide_bounds[of "length (filterItems items config zoom)"] wh by simp_all
  show "length (cells m) = nat (H m)"
    using binAll_shape[OF pos] by (simp add: c length_mkMatrix shape_def)
  show "\<forall>row\<in>set (cells m). length row = nat (W m)"
    using binAll_shape[OF pos, of cs] by (auto simp: c shape_def dest!: mkMatrix_row_lengths)
qed

lemma cell_of_matrixE:
  assumes "buildHeatMap items config zoom = Inr (Some m)" "row \<in> set (cells m)" "c \<in> set row"
  obtains ws cx cy y x where
    "withCoords (xParams config) (yParams config) (filterItems items config zoom) = Some ws"
    "center (useIndexCoords (xParams config) (yParams config) (filterItems items config zoom))
       (directionOf config) ws = Some (cx, cy)"
    "y < nat (H m)" "x < nat (W m)"
    "c = mkCell (xParams config) (yParams config) y x
           (filter (inBin (W m) (H m) y x)
              (map (centerItem (useIndexCoords (xParams config) (yParams config)
                      (filterItems items config zoom)) cx cy) ws))"
proof -
  from assms(1) obtain ws cx cy where
    ws: "withCoords (xParams config) (yParams config) (filterItems items config zoom) = Some ws"
    and ce: "center (useIndexCoords (xParams config) (yParams config) (filterItems items config zoom))
       (directionOf config) ws = Some (cx, cy)"
    and wh: "W m = gridSide (length (filterItems items config zoom))"
            "H m = gridSide (length (filterItems items config zoom))"
    by (auto elim!: buildHeatMap_SomeE)
  have pos: "0 < W m" "0 < H m"
    using gridSide_bounds[of "length (filterItems items config zoom)"] wh by simp_all
  from count_shape[OF assms(1)] have len: "length (cells m) = nat (H m)"
    and rows: "\<forall>row\<in>set (cells m). length row = nat (W m)" by simp_all
  from assms(2) obtain y where y: "y < nat (H m)" "row = cells m ! y"
    using len by (auto simp: in_set_conv_nth)
  from assms(3) rows assms(2) obtain x where x: "x < nat (W m)" "c = row ! x"
    by (auto simp: in_set_conv_nth)
  have "c = cells m ! y ! x" using x y by simp
  with buildHeatMap_cell[OF assms(1) ws ce y(1) x(1)] that[OF ws ce y(1) x(1)]
  show thesis by simp
qed

lemma centerItem_coords:
  "xCoord (centerItem s cx cy w) = xCoord w" "yCoord (centerItem s cx cy w) = yCoord w"
  "params (centerItem s cx cy w) = params w" "score (centerItem s cx cy w) = score w"
  "xCentered (centerItem True cx cy w) = xCoord w" "yCentered (centerItem True cx cy w) = yCoord w"
  by (simp_all add: centerItem_def Placed.defs)

lemma extend_fields:
  "xCoord (Result.extend it \<lparr>xCoord = a, yCoord = b\<rparr>) = a"
  "yCoord (Result.extend it \<lparr>xCoord = a, yCoord = b\<rparr>) = b"
  "params (Result.extend it \<lparr>xCoord = a, yCoord = b\<rparr>) = params it"
  "score (Result.extend it \<lparr>xCoord = a, yCoord = b\<rparr>) = score it"
  "Result.truncate (Result.extend it \<lparr>xCoord = a, yCoord = b\<rparr>) = it"
  by (simp_all add: Result.defs)


lemma center_index_path:
  assumes "buildHeatMap items config zoom = Inr (Some m)"
    and "useIndexCoords (xParams config) (yParams config) (filterItems items config zoom)"
  shows "centerX m = 1/2 \<and> centerY m = 1/2"
  using assms by (auto elim!: buildHeatMap_SomeE simp: center_def)

lemma cellZoom_None_iff:
  "cellZoom b ks = None \<longleftrightarrow> (\<forall>r\<in>set b. \<forall>k\<in>set ks. params r k = None)"
  by (auto simp: cellZoom_def Let_def list_ex_iff computeRanges_def computeRange_min_None)

lemma cellZoom_Some:
  "cellZoom b ks = Some zr \<Longrightarrow>
   zr k = (if k \<in> set ks \<and> (\<exists>r\<in>set b. params r k \<noteq> None) then Some (computeRange b k) else None)"
proof -
  assume "cellZoom b ks = Some zr"
  then have "zr = (\<lambda>k. case computeRanges b ks k of
                          None \<Rightarrow> None
                        | Some r \<Rightarrow> if minv r = None then None else Some r)"
    by (simp add: cellZoom_def Let_def split: if_splits)
  then show ?thesis
    by (simp add: computeRanges_def computeRange_min_None)
qed

lemma zoomRanges_mkCell:
  "zoomRanges (mkCell xs ys y x b) = (if b = [] then None else cellZoom b (xs @ ys))"
  by (simp add: mkCell_def)

lemma indexCoords_one: "indexCoords (Suc 0) 0 = (1/2, 1/2)"
  by (simp add: indexCoords_def Let_def clamp_def)

lemma useIndexCoords_single: "useIndexCoords xs ys [it]"
proof -
  have "\<not> (\<exists>k\<in>set xs. \<exists>lo hi. computeRange [it] k = \<lparr>minv = Some lo, maxv = Some hi\<rparr> \<and> lo < hi)"
    by (auto simp: computeRange_def stepMin_def stepMax_def split: option.splits)
  then show ?thesis by (simp add: useIndexCoords_iff)
qed

lemma withCoords_single:
  "withCoords xs ys [it] = Some [Result.extend it \<lparr>xCoord = 1/2, yCoord = 1/2\<rparr>]"
  by (simp add: withCoords_index[OF useIndexCoords_single] enumerate_eq_zip indexCoords_one)

lemma set_filterItems: "set (filterItems items config zoom) \<subseteq> set items"
  by (auto simp: filterItems_def filterFixed_def split: option.splits if_splits)

lemma shared_range_degenerate:
  assumes "\<forall>a\<in>set F. \<forall>b\<in>set F. params a k = params b k"
  shows "minv (computeRange F k) = maxv (computeRange F k)"
proof (cases "minv (computeRange F k)")
  case None
  then show ?thesis by (simp add: computeRange_min_None computeRange_max_None[symmetric])
next
  case (Some lo)
  then obtain a where a: "a \<in> set F" "params a k = Some lo"
    using computeRange_min_attained by blast
  from computeRange_bounds[OF a] obtain hi where hi: "maxv (computeRange F k) = Some hi" by auto
  then obtain b where b: "b \<in> set F" "params b k = Some hi"
    using computeRange_max_attained by blast
  from assms a(1) b(1) have "params a k = params b k" by blast
  then have "lo = hi" unfolding a(2) b(2) by simp
  with Some hi show ?thesis by simp
qed

lemma normalizeParam_degenerate: "normalizeParam v r r = Some (1/2)"
  by (cases r) (simp_all add: normalizeParam_def)

lemma filterItems_cfgFixed: "filterItems [a1] cfgFixed None = []"
  by (simp add: filterItems_def filterFixed_def fixedOf_def xParams_def yParams_def cfgFixed_def a1_def)

lemma cells_exA:
  assumes "buildHeatMap [a1, a2] cfgXY None = Inr (Some m)"
  shows "cells m ! 5 ! 0 = mkCell [''x''] [''y''] 5 0
           [centerItem True (1/2) (1/2) (Result.extend a1 \<lparr>xCoord = 0, yCoord = 1/2\<rparr>)]"
    and "cells m ! 5 ! 9 = mkCell [''x''] [''y''] 5 9
           [centerItem True (1/2) (1/2) (Result.extend a2 \<lparr>xCoord = 1, yCoord = 1/2\<rparr>)]"
proof -
  have g: "W m = 10" "H m = 10"
    using assms by (auto elim!: buildHeatMap_SomeE simp: filterItems_cfgXY gridSide_eq)
  have wc: "withCoords (xParams cfgXY) (yParams cfgXY) (filterItems [a1, a2] cfgXY None) =
      Some [Result.extend a1 \<lparr>xCoord = 0, yCoord = 1/2\<rparr>, Result.extend a2 \<lparr>xCoord = 1, yCoord = 1/2\<rparr>]"
    by (simp add: filterItems_cfgXY xParams_cfgXY withCoords_exA)
  have ce: "center (useIndexCoords (xParams cfgXY) (yParams cfgXY) (filterItems [a1, a2] cfgXY None))
      (directionOf cfgXY) ws = Some (1/2, 1/2)" for ws
    by (simp add: filterItems_cfgXY xParams_cfgXY useIndexCoords_exA center_def)
  show "cells m ! 5 ! 0 = mkCell [''x''] [''y''] 5 0
           [centerItem True (1/2) (1/2) (Result.extend a1 \<lparr>xCoord = 0, yCoord = 1/2\<rparr>)]"
    using buildHeatMap_cell[OF assms wc ce, of 5 0, simplified filterItems_cfgXY xParams_cfgXY g useIndexCoords_exA]
    by (simp add: inBin_def binIndex_def centerItem_def Placed.defs Result.defs)
  show "cells m ! 5 ! 9 = mkCell [''x''] [''y''] 5 9
           [centerItem True (1/2) (1/2) (Result.extend a2 \<lparr>xCoord = 1, yCoord = 1/2\<rparr>)]"
    using buildHeatMap_cell[OF assms wc ce, of 5 9, simplified filterItems_cfgXY xParams_cfgXY g useIndexCoords_exA]
    by (simp add: inBin_def binIndex_def centerItem_def Placed.defs Result.defs)
qed




lemma not_useIndexCoords_exMissing: "\<not> useIndexCoords [''x''] [''y''] [b1, b2, b3]"
  by (simp add: useIndexCoords_def rangeValid_def computeRanges_def computeRange_def
      stepMin_def stepMax_def b1_def b2_def b3_def)

lemma coordsOf_exMissing:
  "coordsOf False [''x''] [''y''] (computeRanges [b1, b2, b3] [''x'', ''y'']) n b1 i = (Some 0, Some 0)"
  "coordsOf False [''x''] [''y''] (computeRanges [b1, b2, b3] [''x'', ''y'']) n b2 i = (Some 1, Some (1/2))"
  "coordsOf False [''x''] [''y''] (computeRanges [b1, b2, b3] [''x'', ''y'']) n b3 i = (None, Some 1)"
  by (simp_all add: coordsOf_def axisCoord_def normalizeParam_def computeRanges_def computeRange_def
      stepMin_def stepMax_def clamp_def b1_def b2_def b3_def)

lemma withCoords_exMissing: "withCoords [''x''] [''y''] [b1, b2, b3] = None"
  by (simp add: withCoords_def not_useIndexCoords_exMissing coordsOf_exMissing)

















section \<open>When the engine raises\<close>

lemma sumVals_None_iff: "sumVals vs = None \<longleftrightarrow> None \<in> set vs"
proof (induction vs)
  case Nil
  then show ?case by simp
next
  case (Cons v vs)
  then show ?case by (cases v) (auto split: option.splits)
qed

lemma normalizeParam_None_iff:
  "normalizeParam v mn mx = None \<longleftrightarrow> v = None \<and> (\<exists>lo hi. mn = Some lo \<and> mx = Some hi \<and> hi \<noteq> lo)"
  by (cases v; cases mn; cases mx) (simp_all add: normalizeParam_def del: not_None_eq)

lemma axisCoord_None_sum:
  "axisCoord r it ks = None \<longleftrightarrow>
     sumVals (map (\<lambda>k. normalizeParam (params it k)
                          (case r k of None \<Rightarrow> None | Some r \<Rightarrow> minv r)
                          (case r k of None \<Rightarrow> None | Some r \<Rightarrow> maxv r)) ks) = None"
  by (simp add: axisCoord_def Let_def split: option.splits)

lemma axisCoord_None_iff:
  assumes "set ks \<subseteq> set keys"
  shows "axisCoord (computeRanges F keys) it ks = None \<longleftrightarrow>
     (\<exists>k\<in>set ks. params it k = None \<and>
        (\<exists>lo hi. computeRange F k = \<lparr>minv = Some lo, maxv = Some hi\<rparr> \<and> lo < hi))"
proof -
  have "axisCoord (computeRanges F keys) it ks = None \<longleftrightarrow>
      (\<exists>k\<in>set ks. params it k = None \<and>
        (\<exists>lo hi. minv (computeRange F k) = Some lo \<and> maxv (computeRange F k) = Some hi \<and> hi \<noteq> lo))"
  proof -
    have "axisCoord (computeRanges F keys) it ks = None \<longleftrightarrow>
        (\<exists>k\<in>set ks. normalizeParam (params it k)
             (case computeRanges F keys k of None \<Rightarrow> None | Some r \<Rightarrow> minv r)
             (case computeRanges F keys k of None \<Rightarrow> None | Some r \<Rightarrow> maxv r) = None)"
      unfolding axisCoord_None_sum sumVals_None_iff by force
    also have "\<dots> \<longleftrightarrow> (\<exists>k\<in>set ks. normalizeParam (params it k)
             (minv (computeRange F k)) (maxv (computeRange F k)) = None)"
      using assms by (intro bex_cong refl) (auto simp: computeRanges_def)
    finally show ?thesis by (simp add: normalizeParam_None_iff)
  qed
  also have "\<dots> \<longleftrightarrow> (\<exists>k\<in>set ks. params it k = None \<and>
        (\<exists>lo hi. computeRange F k = \<lparr>minv = Some lo, maxv = Some hi\<rparr> \<and> lo < hi))"
  proof -
    have "(\<exists>lo hi. minv (computeRange F k) = Some lo \<and> maxv (computeRange F k) = Some hi \<and> hi \<noteq> lo)
        \<longleftrightarrow> (\<exists>lo hi. computeRange F k = \<lparr>minv = Some lo, maxv = Some hi\<rparr> \<and> lo < hi)" for k
      using computeRange_min_le_max[of F k] by (fastforce simp: Range_eq)
    then show ?thesis by simp
  qed
  finally show ?thesis .
qed

lemma withCoordsFrom_None_iff:
  "withCoordsFrom False xs ys r n i its = None \<longleftrightarrow>
     (\<exists>it\<in>set its. axisCoord r it xs = None \<or> axisCoord r it ys = None)"
proof (induction its arbitrary: i)
  case Nil
  then show ?case by simp
next
  case (Cons it its)
  show ?case
  proof (cases "axisCoord r it xs")
    case None
    then show ?thesis by (simp add: coordsOf_def)
  next
    case x: (Some x)
    show ?thesis
    proof (cases "axisCoord r it ys")
      case None
      then show ?thesis using x by (simp add: coordsOf_def)
    next
      case y: (Some y)
      show ?thesis
      proof (cases "withCoordsFrom False xs ys r n (Suc i) its")
        case None
        then show ?thesis using x y Cons.IH[of "Suc i"] by (simp add: coordsOf_def)
      next
        case (Some rest)
        then show ?thesis using x y Cons.IH[of "Suc i"] by (simp add: coordsOf_def)
      qed
    qed
  qed
qed

lemma buildHeatMap_raises_iff:
  "buildHeatMap items config zoom = Inl TypeError \<longleftrightarrow>
     filterItems items config zoom \<noteq> [] \<and>
     \<not> useIndexCoords (xParams config) (yParams config) (filterItems items config zoom) \<and>
     (\<exists>it\<in>set (filterItems items config zoom). \<exists>k\<in>set (xParams config @ yParams config).
        params it k = None \<and>
        (\<exists>lo hi. computeRange (filterItems items config zoom) k = \<lparr>minv = Some lo, maxv = Some hi\<rparr>
                  \<and> lo < hi))"
proof -
  define F where "F = filterItems items config zoom"
  define xs where "xs = xParams config"
  define ys where "ys = yParams config"
  have x: "set xs \<subseteq> set (remdups (xs @ ys))" and y: "set ys \<subseteq> set (remdups (xs @ ys))" by auto
  have "withCoords xs ys F = None \<longleftrightarrow>
      \<not> useIndexCoords xs ys F \<and>
      (\<exists>it\<in>set F. \<exists>k\<in>set (xs @ ys). params it k = None \<and>
        (\<exists>lo hi. computeRange F k = \<lparr>minv = Some lo, maxv = Some hi\<rparr> \<and> lo < hi))"
  proof (cases "useIndexCoords xs ys F")
    case True
    then show ?thesis by (simp add: withCoords_index)
  next
    case False
    then show ?thesis
      unfolding withCoords_def
      by (simp add: withCoordsFrom_None_iff axisCoord_None_iff[OF x] axisCoord_None_iff[OF y]) blast
  qed
  then show ?thesis
    unfolding buildHeatMap_throws_iff F_def xs_def ys_def by simp
qed

section \<open>Drilling into a cell\<close>

























section \<open>Properties of the engine\<close>

text \<open>
  Claim C1. \<^verbatim>\<open>buildHeatMap\<close> returns \<^verbatim>\<open>null\<close> exactly when no result survives the
  filters (lemma \<open>buildHeatMap_null_iff\<close>), but it does not return a matrix for every input
  with a surviving result. Here three results survive, the third has no value for the
  axis key \<^verbatim>\<open>x\<close> while the other two give \<^verbatim>\<open>x\<close> the range 1 to 2:
  \<^verbatim>\<open>normalizeParam(undefined, 1, 2)\<close> is \<^verbatim>\<open>NaN\<close>, the bin index of that result is \<^verbatim>\<open>NaN\<close>
  and \<^verbatim>\<open>cells[yi][xi].push(it)\<close> raises a TypeError.
\<close>

theorem missing_value_raises:
  "filterItems [b1, b2, b3] cfgXY None = [b1, b2, b3] \<and>
   params b3 ''x'' = None \<and>
   buildHeatMap [b1, b2, b3] cfgXY None = Inl TypeError"
  by (simp add: buildHeatMap_throws_iff filterItems_cfgXY xParams_cfgXY withCoords_exMissing)
     (simp add: b3_def)

text \<open>
  Claim C2. Whenever \<^verbatim>\<open>buildHeatMap\<close> returns a matrix, its \<open>N\<close> is at least 1, \<open>W\<close> and \<open>H\<close>
  are equal, both are \<open>clamp(round(clamp(sqrt(max(N,1))/6, 0, 1) * (13 - 9) + 9), 9, 13)\<close>, and
  both lie between 9 and 13.
\<close>

theorem grid_side:
  assumes "buildHeatMap items config zoom = Inr (Some m)"
  shows "1 \<le> N m \<and> W m = H m \<and>
         W m = clamp (round (clamp (sqrt (real (max (N m) 1)) / 6) 0 1 * (13 - 9) + 9)) 9 13 \<and>
         9 \<le> W m \<and> W m \<le> 13 \<and> 9 \<le> H m \<and> H m \<le> 13"
proof -
  from assms have n: "N m = length (filterItems items config zoom)"
    and w: "W m = gridSide (N m)" and h: "H m = gridSide (N m)"
    and ne: "filterItems items config zoom \<noteq> []"
    by (auto elim!: buildHeatMap_SomeE)
  have "1 \<le> N m" using n ne by (cases "filterItems items config zoom") simp_all
  moreover have "gridSide (N m) =
      clamp (round (clamp (sqrt (real (max (N m) 1)) / 6) 0 1 * (13 - 9) + 9)) 9 13"
    by (simp add: gridSide_def desiredMin_def desiredMax_def HEATMAP_MAX_SIZE_def Let_def)
  ultimately show ?thesis using w h gridSide_bounds[of "N m"] by simp
qed

text \<open>
  Claim C2 on two results: \<open>N = 2\<close> and the side is 10.
\<close>

theorem grid_side_witness:
  "\<exists>m. buildHeatMap [a1, a2] cfgXY None = Inr (Some m) \<and> N m = 2 \<and> W m = 10 \<and> H m = 10 \<and>
       W m = clamp (round (clamp (sqrt (real (max (N m) 1)) / 6) 0 1 * (13 - 9) + 9)) 9 13"
proof -
  obtain m where m: "buildHeatMap [a1, a2] cfgXY None = Inr (Some m)"
    using returns_exA by blast
  have "N m = 2" "W m = 10"
    using m by (auto elim!: buildHeatMap_SomeE simp: filterItems_cfgXY gridSide_eq)
  then show ?thesis using grid_side[OF m] m by auto
qed



text \<open>
  Claim C4. In every matrix that \<^verbatim>\<open>buildHeatMap\<close> returns there are \<open>H\<close> rows of \<open>W\<close> cells,
  and the \<open>count\<close> fields of all cells add up to \<open>N\<close>: every filtered result is put into
  exactly one cell.
\<close>

theorem count_conservation:
  assumes "buildHeatMap items config zoom = Inr (Some m)"
  shows "length (cells m) = nat (H m) \<and> (\<forall>row\<in>set (cells m). length row = nat (W m)) \<and>
         (\<Sum>row\<leftarrow>cells m. \<Sum>c\<leftarrow>row. count c) = N m"
proof -
  from assms obtain ws cx cy where
    m: "m = \<lparr>N = length (filterItems items config zoom),
          W = gridSide (length (filterItems items config zoom)),
          H = gridSide (length (filterItems items config zoom)),
          scoreMin = minScoreOf (map score (map (centerItem (useIndexCoords (xParams config) (yParams config) (filterItems items config zoom)) cx cy) ws)),
          scoreMax = maxScoreOf (map score (map (centerItem (useIndexCoords (xParams config) (yParams config) (filterItems items config zoom)) cx cy) ws)),
          centerX = cx, centerY = cy,
          cells = mkMatrix (xParams config) (yParams config)
                    (binAll (gridSide (length (filterItems items config zoom)))
                       (gridSide (length (filterItems items config zoom)))
                       (map (centerItem (useIndexCoords (xParams config) (yParams config) (filterItems items config zoom)) cx cy) ws)),
          xKeys = xParams config, yKeys = yParams config\<rparr>"
    and ws: "withCoords (xParams config) (yParams config) (filterItems items config zoom) = Some ws"
    by (rule buildHeatMap_SomeE)
  have pos: "0 < gridSide (length (filterItems items config zoom))"
    using gridSide_bounds[of "length (filterItems items config zoom)"] by simp
  have len: "length ws = length (filterItems items config zoom)"
    using ws by (simp add: withCoords_def withCoordsFrom_length)
  show ?thesis
    using binAll_shape[OF pos pos] binAll_total[OF pos pos] len
    by (auto simp: m mkMatrix_counts length_mkMatrix shape_def dest!: mkMatrix_row_lengths)
qed

text \<open>
  Claim C4 on two results: ten rows, and the counts add up to 2.
\<close>

theorem count_conservation_witness:
  "\<exists>m. buildHeatMap [a1, a2] cfgXY None = Inr (Some m) \<and> length (cells m) = 10 \<and>
       (\<Sum>row\<leftarrow>cells m. \<Sum>c\<leftarrow>row. count c) = 2"
proof -
  obtain m where m: "buildHeatMap [a1, a2] cfgXY None = Inr (Some m)"
    using returns_exA by blast
  have "N m = 2" "H m = 10"
    using m by (auto elim!: buildHeatMap_SomeE simp: filterItems_cfgXY gridSide_eq)
  then show ?thesis using count_conservation[OF m] m by auto
qed

text \<open>
  Claim C5, as the code has it. In every returned matrix the \<open>count\<close> of a cell is the
  number of its results, and its \<open>zoomRanges\<close> is \<^verbatim>\<open>null\<close> exactly when the cell has no
  result or no result of the cell has a value for any axis key. When it is not \<^verbatim>\<open>null\<close>,
  it maps every axis key that has a value in the cell to the \<open>{min, max}\<close> of that key over
  the cell, whether or not \<open>min < max\<close>, and has no other key.
\<close>

theorem cell_zoom_ranges:
  assumes "buildHeatMap items config zoom = Inr (Some m)"
    and "row \<in> set (cells m)" and "c \<in> set row"
  shows "count c = length (results c) \<and>
         (zoomRanges c = None \<longleftrightarrow>
            count c = 0 \<or> (\<forall>r\<in>set (results c). \<forall>k\<in>set (xKeys m @ yKeys m). params r k = None)) \<and>
         (\<forall>zr k. zoomRanges c = Some zr \<longrightarrow>
            zr k = (if k \<in> set (xKeys m @ yKeys m) \<and> (\<exists>r\<in>set (results c). params r k \<noteq> None)
                    then Some (computeRange (results c) k) else None))"
proof -
  from cell_of_matrixE[OF assms] obtain y x b where
    c: "c = mkCell (xParams config) (yParams config) y x b" by metis
  have k: "xKeys m = xParams config" "yKeys m = yParams config"
    using assms(1) by (auto elim!: buildHeatMap_SomeE)
  have r: "results c = b" and n: "count c = length b"
    by (simp_all add: c results_mkCell count_mkCell)
  have z: "zoomRanges c = (if b = [] then None else cellZoom b (xKeys m @ yKeys m))"
    by (simp add: c zoomRanges_mkCell k)
  have 1: "zoomRanges c = None \<longleftrightarrow>
            count c = 0 \<or> (\<forall>r\<in>set (results c). \<forall>k\<in>set (xKeys m @ yKeys m). params r k = None)"
    unfolding z r n by (simp add: cellZoom_None_iff)
  have 2: "zr k = (if k \<in> set (xKeys m @ yKeys m) \<and> (\<exists>r\<in>set (results c). params r k \<noteq> None)
                    then Some (computeRange (results c) k) else None)"
    if "zoomRanges c = Some zr" for zr k
  proof -
    from that have "cellZoom b (xKeys m @ yKeys m) = Some zr" by (simp add: z split: if_splits)
    from cellZoom_Some[OF this] show ?thesis by (simp add: r)
  qed
  show ?thesis using 1 2 r n by blast
qed

text \<open>
  Claim C5 on one result: the cell in row 5, column 4 is empty and its \<open>zoomRanges\<close>
  is \<^verbatim>\<open>null\<close>.
\<close>

theorem cell_zoom_ranges_witness:
  "\<exists>m. buildHeatMap [a1] cfgXY None = Inr (Some m) \<and> cells m ! 5 \<in> set (cells m) \<and>
       cells m ! 5 ! 4 \<in> set (cells m ! 5) \<and> count (cells m ! 5 ! 4) = 0 \<and>
       zoomRanges (cells m ! 5 ! 4) = None"
proof -
  obtain m where m: "buildHeatMap [a1] cfgXY None = Inr (Some m)"
    using buildHeatMap_returns[of "[a1]" cfgXY None]
    by (auto simp: filterItems_cfgXY xParams_cfgXY withCoords_single)
  have g: "W m = 10" "H m = 10"
    using m by (auto elim!: buildHeatMap_SomeE simp: filterItems_cfgXY gridSide_eq)
  have row: "cells m ! 5 \<in> set (cells m)"
    using count_shape(1)[OF m] g by (simp add: nth_mem)
  have cell: "cells m ! 5 ! 4 \<in> set (cells m ! 5)"
    using count_shape(2)[OF m] row g by (simp add: nth_mem)
  have wc: "withCoords (xParams cfgXY) (yParams cfgXY) (filterItems [a1] cfgXY None) =
      Some [Result.extend a1 \<lparr>xCoord = 1/2, yCoord = 1/2\<rparr>]"
    by (simp add: filterItems_cfgXY withCoords_single)
  have ce: "center (useIndexCoords (xParams cfgXY) (yParams cfgXY) (filterItems [a1] cfgXY None))
      (directionOf cfgXY) ws = Some (1/2, 1/2)" for ws
    by (simp add: filterItems_cfgXY useIndexCoords_single center_def)
  have "cells m ! 5 ! 4 = mkCell [''x''] [''y''] 5 4 []"
    using buildHeatMap_cell[OF m wc ce, of 5 4, simplified filterItems_cfgXY xParams_cfgXY g]
    by (simp add: useIndexCoords_single inBin_def binIndex_def centerItem_def Placed.defs Result.defs)
  then have "count (cells m ! 5 ! 4) = 0" by (simp add: count_mkCell)
  with cell_zoom_ranges[OF m row cell] m row cell show ?thesis by blast
qed

text \<open>
  Claim C5 as stated fails. With a single result, the cell in row 5, column 5 holds that
  result: every parameter range of the cell is degenerate (\<open>min = max = 1\<close>), and its
  \<open>zoomRanges\<close> is not \<^verbatim>\<open>null\<close>.
\<close>

theorem degenerate_cell_is_zoomable:
  "\<exists>m zr. buildHeatMap [a1] cfgXY None = Inr (Some m) \<and> cells m ! 5 \<in> set (cells m) \<and>
       cells m ! 5 ! 5 \<in> set (cells m ! 5) \<and> count (cells m ! 5 ! 5) = 1 \<and>
       zoomRanges (cells m ! 5 ! 5) = Some zr \<and>
       zr ''x'' = Some \<lparr>minv = Some 1, maxv = Some 1\<rparr> \<and>
       zr ''y'' = Some \<lparr>minv = Some 1, maxv = Some 1\<rparr> \<and>
       paramRangesX (cells m ! 5 ! 5) ''x'' = Some \<lparr>minv = Some 1, maxv = Some 1\<rparr> \<and>
       paramRangesY (cells m ! 5 ! 5) ''y'' = Some \<lparr>minv = Some 1, maxv = Some 1\<rparr>"
proof -
  obtain m where m: "buildHeatMap [a1] cfgXY None = Inr (Some m)"
    using buildHeatMap_returns[of "[a1]" cfgXY None]
    by (auto simp: filterItems_cfgXY xParams_cfgXY withCoords_single)
  have g: "W m = 10" "H m = 10"
    using m by (auto elim!: buildHeatMap_SomeE simp: filterItems_cfgXY gridSide_eq)
  have row: "cells m ! 5 \<in> set (cells m)"
    using count_shape(1)[OF m] g by (simp add: nth_mem)
  have cell: "cells m ! 5 ! 5 \<in> set (cells m ! 5)"
    using count_shape(2)[OF m] row g by (simp add: nth_mem)
  have wc: "withCoords (xParams cfgXY) (yParams cfgXY) (filterItems [a1] cfgXY None) =
      Some [Result.extend a1 \<lparr>xCoord = 1/2, yCoord = 1/2\<rparr>]"
    by (simp add: filterItems_cfgXY withCoords_single)
  have ce: "center (useIndexCoords (xParams cfgXY) (yParams cfgXY) (filterItems [a1] cfgXY None))
      (directionOf cfgXY) ws = Some (1/2, 1/2)" for ws
    by (simp add: filterItems_cfgXY useIndexCoords_single center_def)
  define b where "b = [centerItem True (1/2) (1/2) (Result.extend a1 \<lparr>xCoord = 1/2, yCoord = 1/2\<rparr>)]"
  have c: "cells m ! 5 ! 5 = mkCell [''x''] [''y''] 5 5 b"
    using buildHeatMap_cell[OF m wc ce, of 5 5, simplified filterItems_cfgXY xParams_cfgXY g]
    by (simp add: useIndexCoords_single inBin_def binIndex_def centerItem_def Placed.defs Result.defs b_def)
  have rx: "computeRange b ''x'' = \<lparr>minv = Some 1, maxv = Some 1\<rparr>"
    and ry: "computeRange b ''y'' = \<lparr>minv = Some 1, maxv = Some 1\<rparr>"
    by (simp_all add: b_def computeRange_def stepMin_def stepMax_def centerItem_coords extend_fields a1_def)
  have px: "\<exists>r\<in>set b. params r ''x'' \<noteq> None" and py: "\<exists>r\<in>set b. params r ''y'' \<noteq> None"
    by (simp_all add: b_def centerItem_coords extend_fields a1_def)
  have "cellZoom b ([''x''] @ [''y'']) \<noteq> None"
    using px by (auto simp: cellZoom_None_iff)
  then obtain zr where zr: "cellZoom b ([''x''] @ [''y'']) = Some zr" by blast
  have "zoomRanges (cells m ! 5 ! 5) = Some zr"
    using zr by (simp add: c zoomRanges_mkCell b_def)
  moreover have "zr ''x'' = Some \<lparr>minv = Some 1, maxv = Some 1\<rparr>"
    using cellZoom_Some[OF zr, of "''x''"] px rx by simp
  moreover have "zr ''y'' = Some \<lparr>minv = Some 1, maxv = Some 1\<rparr>"
    using cellZoom_Some[OF zr, of "''y''"] py ry by simp
  moreover have "count (cells m ! 5 ! 5) = 1" by (simp add: c count_mkCell b_def)
  moreover have "paramRangesX (cells m ! 5 ! 5) ''x'' = Some \<lparr>minv = Some 1, maxv = Some 1\<rparr>"
    "paramRangesY (cells m ! 5 ! 5) ''y'' = Some \<lparr>minv = Some 1, maxv = Some 1\<rparr>"
    using rx ry by (simp_all add: c mkCell_def b_def computeRanges_def)
  ultimately show ?thesis using m row cell by blast
qed




text \<open>
  Claim C7, as the code has it. If at least one result survives the filters and all
  results share the same value for every axis key, then \<^verbatim>\<open>buildHeatMap\<close> returns a matrix,
  index coordinates are used, \<open>centerX = centerY = 1/2\<close>, and for every axis key the
  range over the filtered results is degenerate, so that \<^verbatim>\<open>normalizeParam\<close> is \<open>1/2\<close>
  for every value and nothing is divided by zero.
\<close>

theorem degenerate_safety:
  assumes "filterItems items config zoom \<noteq> []"
    and "\<forall>k\<in>set (xParams config @ yParams config).
           \<forall>a\<in>set items. \<forall>b\<in>set items. params a k = params b k"
  shows "\<exists>m. buildHeatMap items config zoom = Inr (Some m) \<and>
             useIndexCoords (xParams config) (yParams config) (filterItems items config zoom) \<and>
             centerX m = 1/2 \<and> centerY m = 1/2 \<and>
             (\<forall>k\<in>set (xParams config @ yParams config). \<forall>v.
                normalizeParam v (minv (computeRange (filterItems items config zoom) k))
                  (maxv (computeRange (filterItems items config zoom) k)) = Some (1/2))"
proof -
  define F where "F = filterItems items config zoom"
  have sh: "\<forall>a\<in>set F. \<forall>b\<in>set F. params a k = params b k"
    if "k \<in> set (xParams config @ yParams config)" for k
    using assms(2) that set_filterItems[of items config zoom] unfolding F_def by blast
  have deg: "minv (computeRange F k) = maxv (computeRange F k)"
    if "k \<in> set (xParams config @ yParams config)" for k
    using shared_range_degenerate[OF sh[OF that]] .
  have "xParams config \<noteq> []" by (simp add: xParams_def split: option.splits)
  have "\<not> (\<exists>k\<in>set (xParams config). \<exists>lo hi.
            computeRange F k = \<lparr>minv = Some lo, maxv = Some hi\<rparr> \<and> lo < hi)"
  proof
    assume "\<exists>k\<in>set (xParams config). \<exists>lo hi.
            computeRange F k = \<lparr>minv = Some lo, maxv = Some hi\<rparr> \<and> lo < hi"
    then obtain k lo hi where "k \<in> set (xParams config)"
      "computeRange F k = \<lparr>minv = Some lo, maxv = Some hi\<rparr>" "lo < hi" by blast
    with deg[of k] show False by simp
  qed
  then have u: "useIndexCoords (xParams config) (yParams config) F"
    by (simp add: useIndexCoords_iff)
  obtain ws where ws: "withCoords (xParams config) (yParams config) F = Some ws"
    using withCoords_index[OF u] by blast
  obtain m where m: "buildHeatMap items config zoom = Inr (Some m)"
    using buildHeatMap_returns[of items config zoom ws] assms(1) ws by (auto simp: F_def)
  have ce: "centerX m = 1/2 \<and> centerY m = 1/2"
    using center_index_path[OF m] u by (simp add: F_def)
  have "normalizeParam v (minv (computeRange F k)) (maxv (computeRange F k)) = Some (1/2)"
    if "k \<in> set (xParams config @ yParams config)" for k v
    using deg[OF that] by (simp add: normalizeParam_degenerate)
  then show ?thesis using m u ce unfolding F_def by blast
qed

text \<open>
  Claim C7 on two results with the same value on both axes.
\<close>

theorem degenerate_safety_witness:
  "filterItems [a1, a2] cfgXY None \<noteq> [] \<and>
   params a1 ''x'' = params a2 ''x'' \<and> params a1 ''y'' = params a2 ''y'' \<and>
   (\<exists>m. buildHeatMap [a1, a2] cfgXY None = Inr (Some m) \<and> centerX m = 1/2 \<and> centerY m = 1/2 \<and>
        normalizeParam (params a1 ''x'') (minv (computeRange (filterItems [a1, a2] cfgXY None) ''x''))
          (maxv (computeRange (filterItems [a1, a2] cfgXY None) ''x'')) = Some (1/2))"
proof -
  have f: "filterItems [a1, a2] cfgXY None \<noteq> []" by (simp add: filterItems_cfgXY)
  have e: "params a1 ''x'' = params a2 ''x''" "params a1 ''y'' = params a2 ''y''"
    by (simp_all add: a1_def a2_def)
  have s: "\<forall>k\<in>set (xParams cfgXY @ yParams cfgXY). \<forall>a\<in>set [a1, a2]. \<forall>b\<in>set [a1, a2].
             params a k = params b k"
    using e by (simp add: xParams_cfgXY)
  from degenerate_safety[OF f s] obtain m where
    m: "buildHeatMap [a1, a2] cfgXY None = Inr (Some m)" "centerX m = 1/2" "centerY m = 1/2"
    and n: "\<forall>k\<in>set (xParams cfgXY @ yParams cfgXY). \<forall>v.
                normalizeParam v (minv (computeRange (filterItems [a1, a2] cfgXY None) k))
                  (maxv (computeRange (filterItems [a1, a2] cfgXY None) k)) = Some (1/2)"
    by blast
  have "normalizeParam (params a1 ''x'') (minv (computeRange (filterItems [a1, a2] cfgXY None) ''x''))
          (maxv (computeRange (filterItems [a1, a2] cfgXY None) ''x'')) = Some (1/2)"
    using n by (simp add: xParams_cfgXY)
  with m have "\<exists>m. buildHeatMap [a1, a2] cfgXY None = Inr (Some m) \<and> centerX m = 1/2 \<and> centerY m = 1/2 \<and>
        normalizeParam (params a1 ''x'') (minv (computeRange (filterItems [a1, a2] cfgXY None) ''x''))
          (maxv (computeRange (filterItems [a1, a2] cfgXY None) ''x'')) = Some (1/2)"
    by (intro exI[of _ m] conjI)
  with f e show ?thesis by (intro conjI)
qed

text \<open>
  Claim C7 as stated fails. A non-empty list of results may be emptied by the fixed
  parameters, and then \<^verbatim>\<open>buildHeatMap\<close> returns \<^verbatim>\<open>null\<close>. And results that share all axis
  values are placed by index coordinates: of two such results one has \<open>xCoord = 0\<close> and
  the other \<open>xCoord = 1\<close>, neither is \<open>1/2\<close>.
\<close>

theorem degenerate_not_all_half:
  "[a1] \<noteq> [] \<and> buildHeatMap [a1] cfgFixed None = Inr None \<and>
   (\<exists>m. buildHeatMap [a1, a2] cfgXY None = Inr (Some m) \<and>
        map xCoord (results (cells m ! 5 ! 0)) = [0] \<and>
        map xCoord (results (cells m ! 5 ! 9)) = [1])"
proof -
  have n: "buildHeatMap [a1] cfgFixed None = Inr None"
    by (simp add: buildHeatMap_null_iff filterItems_cfgFixed)
  obtain m where m: "buildHeatMap [a1, a2] cfgXY None = Inr (Some m)"
    using returns_exA by blast
  have c: "map xCoord (results (cells m ! 5 ! 0)) = [0]"
    "map xCoord (results (cells m ! 5 ! 9)) = [1]"
    by (simp_all add: cells_exA[OF m] results_mkCell centerItem_coords extend_fields)
  have "\<exists>m. buildHeatMap [a1, a2] cfgXY None = Inr (Some m) \<and>
        map xCoord (results (cells m ! 5 ! 0)) = [0] \<and>
        map xCoord (results (cells m ! 5 ! 9)) = [1]"
    using m c by (intro exI[of _ m] conjI)
  with n show ?thesis by simp
qed

text \<open>
  Claim C8. Entries of \<^verbatim>\<open>zoomRanges\<close> under keys that are on neither axis do not change
  what \<^verbatim>\<open>buildHeatMap\<close> returns: the result with the added entries is the result without
  them, and is the result for \<^verbatim>\<open>zoomRanges\<close> restricted to the axis keys; with such
  entries alone the result is the one for \<^verbatim>\<open>zoomRanges = null\<close>. The axes are the
  ones the engine uses and echoes as \<open>xKeys\<close> and \<open>yKeys\<close>, which are the ones of the
  configuration when those are not empty. Equality of the two results covers the error
  case: the added entries never make the call fail.
\<close>

theorem zoom_noninterference:
  assumes "dom extra \<inter> set (xParams config @ yParams config) = {}"
  shows "buildHeatMap items config (Some (zr ++ extra)) = buildHeatMap items config (Some zr) \<and>
         buildHeatMap items config (Some (zr ++ extra)) =
           buildHeatMap items config (Some (zr |` set (xParams config @ yParams config))) \<and>
         buildHeatMap items config (Some extra) = buildHeatMap items config None"
proof -
  have n: "\<forall>k\<in>set (xParams config @ yParams config). extra k = None"
    using assms by auto
  have "filterItems items config (Some extra) = filterItems items config None"
    using zoomOk_none[OF n] by (simp add: filterItems_def)
  note c = buildHeatMap_filter_cong[OF this]
  have a: "\<forall>k\<in>set (xParams config @ yParams config). (zr ++ extra) k = zr k"
    using assms by (auto simp: map_add_def split: option.splits)
  have b: "\<forall>k\<in>set (xParams config @ yParams config).
             (zr ++ extra) k = (zr |` set (xParams config @ yParams config)) k"
    using a by (simp add: restrict_map_def)
  show ?thesis
    using buildHeatMap_filter_cong[OF filterItems_zoom_cong[OF a]]
      buildHeatMap_filter_cong[OF filterItems_zoom_cong[OF b]] c by simp
qed

text \<open>
  Claim C8 with a range for the key \<^verbatim>\<open>q\<close> added to a range for \<^verbatim>\<open>x\<close>.
\<close>

theorem zoom_noninterference_witness:
  "dom [''q'' \<mapsto> \<lparr>minv = Some 5, maxv = Some 6\<rparr>] \<inter> set (xParams cfgXY @ yParams cfgXY) = {} \<and>
   buildHeatMap [b1, b2] cfgXY
     (Some ([''x'' \<mapsto> \<lparr>minv = Some 1, maxv = Some 1\<rparr>] ++ [''q'' \<mapsto> \<lparr>minv = Some 5, maxv = Some 6\<rparr>]))
   = buildHeatMap [b1, b2] cfgXY (Some [''x'' \<mapsto> \<lparr>minv = Some 1, maxv = Some 1\<rparr>])"
proof -
  have d: "dom [''q'' \<mapsto> \<lparr>minv = Some 5, maxv = Some 6\<rparr>] \<inter> set (xParams cfgXY @ yParams cfgXY) = {}"
    by (simp add: xParams_cfgXY)
  show ?thesis
    using d zoom_noninterference[OF d, of "[b1, b2]" "[''x'' \<mapsto> \<lparr>minv = Some 1, maxv = Some 1\<rparr>]"]
    by simp
qed

text \<open>
  Claim C9. Whenever index coordinates are not used, so that the centering step runs,
  fewer than 100 results survived the filters, \<open>floor(N * 0.06)\<close> is at most 10, the top
  of the ranking is its first ten entries and so has exactly \<open>min(N, 10)\<close> results, and
  in a matrix that is returned \<open>centerX\<close> and \<open>centerY\<close> are the medians of the
  coordinates of that subset.
\<close>

theorem centering_top_ten:
  assumes "\<not> useIndexCoords (xParams config) (yParams config) (filterItems items config zoom)"
  shows "length (filterItems items config zoom) < 100 \<and>
         \<lfloor>real (length (filterItems items config zoom)) * (6/100)\<rfloor> \<le> 10 \<and>
         (\<forall>ws. length ws = length (filterItems items config zoom) \<longrightarrow>
               topK (directionOf config) ws = take 10 (sortByScore (directionOf config) ws) \<and>
               length (topK (directionOf config) ws) = min (length (filterItems items config zoom)) 10) \<and>
         (\<forall>m. buildHeatMap items config zoom = Inr (Some m) \<longrightarrow>
               (\<exists>ws. withCoords (xParams config) (yParams config) (filterItems items config zoom) = Some ws \<and>
                     length (topK (directionOf config) ws) = min (N m) 10 \<and>
                     quantile (sort (map xCoord (topK (directionOf config) ws))) (1/2) = Some (centerX m) \<and>
                     quantile (sort (map yCoord (topK (directionOf config) ws))) (1/2) = Some (centerY m)))"
proof -
  define F where "F = filterItems items config zoom"
  have small: "length F < 100"
    using assms useIndexCoords_large[of F] unfolding F_def by (metis not_le_imp_less)
  have "real (length F) * (6/100) < 6" using small by simp
  then have fl: "\<lfloor>real (length F) * (6/100)\<rfloor> \<le> 10" by linarith
  have top: "topK (directionOf config) ws = take 10 (sortByScore (directionOf config) ws) \<and>
             length (topK (directionOf config) ws) = min (length F) 10"
    if "length ws = length F" for ws
    using topK_small[of ws "directionOf config"] small that by simp
  have ret: "\<exists>ws. withCoords (xParams config) (yParams config) F = Some ws \<and>
                     length (topK (directionOf config) ws) = min (N m) 10 \<and>
                     quantile (sort (map xCoord (topK (directionOf config) ws))) (1/2) = Some (centerX m) \<and>
                     quantile (sort (map yCoord (topK (directionOf config) ws))) (1/2) = Some (centerY m)"
    if m: "buildHeatMap items config zoom = Inr (Some m)" for m
  proof -
    from m obtain ws cx cy where
      ws: "withCoords (xParams config) (yParams config) F = Some ws"
      and ce: "center (useIndexCoords (xParams config) (yParams config) F)
         (directionOf config) ws = Some (cx, cy)"
      and n: "N m = length F" and c: "centerX m = cx" "centerY m = cy"
      unfolding F_def by (auto elim!: buildHeatMap_SomeE)
    have len: "length ws = length F" using ws by (simp add: withCoords_def withCoordsFrom_length)
    have q: "quantile (sort (map xCoord (topK (directionOf config) ws))) (1/2) = Some (centerX m) \<and>
             quantile (sort (map yCoord (topK (directionOf config) ws))) (1/2) = Some (centerY m)"
      using ce assms c unfolding F_def by (auto simp: center_def Let_def split: option.splits)
    show ?thesis using ws q top[OF len] n by auto
  qed
  show ?thesis using small fl top ret unfolding F_def by blast
qed

text \<open>
  Claim C9 on two results that differ on both axes: the top of the ranking has both.
\<close>

theorem centering_top_ten_witness:
  "\<not> useIndexCoords (xParams cfgXY) (yParams cfgXY) (filterItems [b1, b2] cfgXY None) \<and>
   length (filterItems [b1, b2] cfgXY None) = 2 \<and>
   (\<exists>m ws. buildHeatMap [b1, b2] cfgXY None = Inr (Some m) \<and>
       withCoords (xParams cfgXY) (yParams cfgXY) (filterItems [b1, b2] cfgXY None) = Some ws \<and>
       length (topK (directionOf cfgXY) ws) = 2 \<and>
       quantile (sort (map xCoord (topK (directionOf cfgXY) ws))) (1/2) = Some (centerX m))"
proof -
  obtain m where m: "buildHeatMap [b1, b2] cfgXY None = Inr (Some m)"
    using returns_exB by blast
  have u: "\<not> useIndexCoords (xParams cfgXY) (yParams cfgXY) (filterItems [b1, b2] cfgXY None)"
    by (simp add: xParams_cfgXY filterItems_cfgXY not_useIndexCoords_exB)
  have l: "length (filterItems [b1, b2] cfgXY None) = 2" by (simp add: filterItems_cfgXY)
  have n: "N m = 2" using m by (auto elim!: buildHeatMap_SomeE simp: filterItems_cfgXY)
  from centering_top_ten[OF u] m obtain ws where
    "withCoords (xParams cfgXY) (yParams cfgXY) (filterItems [b1, b2] cfgXY None) = Some ws"
    "length (topK (directionOf cfgXY) ws) = min (N m) 10"
    "quantile (sort (map xCoord (topK (directionOf cfgXY) ws))) (1/2) = Some (centerX m)"
    by blast
  with m n have "\<exists>m ws. buildHeatMap [b1, b2] cfgXY None = Inr (Some m) \<and>
       withCoords (xParams cfgXY) (yParams cfgXY) (filterItems [b1, b2] cfgXY None) = Some ws \<and>
       length (topK (directionOf cfgXY) ws) = 2 \<and>
       quantile (sort (map xCoord (topK (directionOf cfgXY) ws))) (1/2) = Some (centerX m)"
    by (intro exI[of _ m] exI[of _ ws]) simp
  with u l show ?thesis by (intro conjI)
qed

text \<open>
  Claim C10. With \<^verbatim>\<open>config.xAxis\<close> missing or empty, \<^verbatim>\<open>buildHeatMap\<close> behaves as it does
  for the x axis \<^verbatim>\<open>["x"]\<close>, whatever the y axis is, and a matrix it returns has
  \<open>xKeys = ["x"]\<close>; likewise, and independently, with \<^verbatim>\<open>config.yAxis\<close> missing or empty
  and \<^verbatim>\<open>["y"]\<close>. It returns \<^verbatim>\<open>null\<close> only when no result survives the filters. In every
  returned matrix \<open>xKeys\<close> and \<open>yKeys\<close> are the configured axes, or these defaults where
  the configured axis is missing or empty.
\<close>

theorem default_axes:
  "((xAxis config = None \<or> xAxis config = Some []) \<longrightarrow>
      buildHeatMap items config zoom = buildHeatMap items (config\<lparr>xAxis := Some [''x'']\<rparr>) zoom \<and>
      (\<forall>m. buildHeatMap items config zoom = Inr (Some m) \<longrightarrow> xKeys m = [''x''])) \<and>
   ((yAxis config = None \<or> yAxis config = Some []) \<longrightarrow>
      buildHeatMap items config zoom = buildHeatMap items (config\<lparr>yAxis := Some [''y'']\<rparr>) zoom \<and>
      (\<forall>m. buildHeatMap items config zoom = Inr (Some m) \<longrightarrow> yKeys m = [''y''])) \<and>
   ((xAxis config = None \<or> xAxis config = Some []) \<and>
    (yAxis config = None \<or> yAxis config = Some []) \<longrightarrow>
      buildHeatMap items config zoom =
        buildHeatMap items (config\<lparr>xAxis := Some [''x''], yAxis := Some [''y'']\<rparr>) zoom) \<and>
   (buildHeatMap items config zoom = Inr None \<longleftrightarrow> filterItems items config zoom = []) \<and>
   (\<forall>m. buildHeatMap items config zoom = Inr (Some m) \<longrightarrow>
      xKeys m = (case xAxis config of None \<Rightarrow> [''x''] | Some ks \<Rightarrow> if ks = [] then [''x''] else ks) \<and>
      yKeys m = (case yAxis config of None \<Rightarrow> [''y''] | Some ks \<Rightarrow> if ks = [] then [''y''] else ks))"
proof (intro conjI impI)
  assume a: "xAxis config = None \<or> xAxis config = Some []"
  then have x: "xParams config = [''x'']" by (auto simp: xParams_def)
  show "buildHeatMap items config zoom = buildHeatMap items (config\<lparr>xAxis := Some [''x'']\<rparr>) zoom"
  proof (rule buildHeatMap_config_cong)
    show "xParams config = xParams (config\<lparr>xAxis := Some [''x'']\<rparr>)"
      unfolding x by (simp add: xParams_def)
  qed (simp_all add: yParams_def fixedOf_def directionOf_def)
  show "\<forall>m. buildHeatMap items config zoom = Inr (Some m) \<longrightarrow> xKeys m = [''x'']"
    using x by (auto elim!: buildHeatMap_SomeE)
next
  assume a: "yAxis config = None \<or> yAxis config = Some []"
  then have y: "yParams config = [''y'']" by (auto simp: yParams_def)
  show "buildHeatMap items config zoom = buildHeatMap items (config\<lparr>yAxis := Some [''y'']\<rparr>) zoom"
  proof (rule buildHeatMap_config_cong)
    show "yParams config = yParams (config\<lparr>yAxis := Some [''y'']\<rparr>)"
      unfolding y by (simp add: yParams_def)
  qed (simp_all add: xParams_def fixedOf_def directionOf_def)
  show "\<forall>m. buildHeatMap items config zoom = Inr (Some m) \<longrightarrow> yKeys m = [''y'']"
    using y by (auto elim!: buildHeatMap_SomeE)
next
  assume a: "(xAxis config = None \<or> xAxis config = Some []) \<and>
    (yAxis config = None \<or> yAxis config = Some [])"
  then have x: "xParams config = [''x'']" and y: "yParams config = [''y'']"
    by (auto simp: xParams_def yParams_def)
  show "buildHeatMap items config zoom =
        buildHeatMap items (config\<lparr>xAxis := Some [''x''], yAxis := Some [''y'']\<rparr>) zoom"
  proof (rule buildHeatMap_config_cong)
    show "xParams config = xParams (config\<lparr>xAxis := Some [''x''], yAxis := Some [''y'']\<rparr>)"
      unfolding x by (simp add: xParams_def)
    show "yParams config = yParams (config\<lparr>xAxis := Some [''x''], yAxis := Some [''y'']\<rparr>)"
      unfolding y by (simp add: yParams_def)
  qed (simp_all add: fixedOf_def directionOf_def)
next
  show "buildHeatMap items config zoom = Inr None \<longleftrightarrow> filterItems items config zoom = []"
    by (rule buildHeatMap_null_iff)
next
  show "\<forall>m. buildHeatMap items config zoom = Inr (Some m) \<longrightarrow>
      xKeys m = (case xAxis config of None \<Rightarrow> [''x''] | Some ks \<Rightarrow> if ks = [] then [''x''] else ks) \<and>
      yKeys m = (case yAxis config of None \<Rightarrow> [''y''] | Some ks \<Rightarrow> if ks = [] then [''y''] else ks)"
    by (auto elim!: buildHeatMap_SomeE simp: xParams_def yParams_def split: option.splits)
qed

text \<open>
  Claim C10 with the x axis missing and the y axis given, with the y axis empty and the
  x axis given, and with both defaulted.
\<close>

theorem default_axes_witness:
  "xAxis cfgNoX = None \<and> yAxis cfgNoX = Some [''y''] \<and>
   buildHeatMap [a1, a2] cfgNoX None = buildHeatMap [a1, a2] cfgXY None \<and>
   (\<exists>m. buildHeatMap [a1, a2] cfgNoX None = Inr (Some m) \<and> xKeys m = [''x'']) \<and>
   xAxis cfgNoY = Some [''x''] \<and> yAxis cfgNoY = Some [] \<and>
   buildHeatMap [a1, a2] cfgNoY None = buildHeatMap [a1, a2] cfgXY None \<and>
   (\<exists>m. buildHeatMap [a1, a2] cfgNoY None = Inr (Some m) \<and> yKeys m = [''y'']) \<and>
   xAxis cfgEmpty = None \<and> yAxis cfgEmpty = Some [] \<and>
   buildHeatMap [a1, a2] cfgEmpty None = buildHeatMap [a1, a2] cfgXY None"
proof -
  have x: "xAxis cfgNoX = None \<or> xAxis cfgNoX = Some []" by (simp add: cfgNoX_def)
  have y: "yAxis cfgNoY = None \<or> yAxis cfgNoY = Some []" by (simp add: cfgNoY_def)
  have cx: "cfgNoX\<lparr>xAxis := Some [''x'']\<rparr> = cfgXY" by (simp add: cfgNoX_def cfgXY_def)
  have cy: "cfgNoY\<lparr>yAxis := Some [''y'']\<rparr> = cfgXY" by (simp add: cfgNoY_def cfgXY_def)
  from default_axes[of cfgNoX "[a1, a2]" None] x
  have dx: "buildHeatMap [a1, a2] cfgNoX None = buildHeatMap [a1, a2] cfgXY None"
    and kx: "\<And>m. buildHeatMap [a1, a2] cfgNoX None = Inr (Some m) \<Longrightarrow> xKeys m = [''x'']"
    unfolding cx by blast+
  from default_axes[of cfgNoY "[a1, a2]" None] y
  have dy: "buildHeatMap [a1, a2] cfgNoY None = buildHeatMap [a1, a2] cfgXY None"
    and ky: "\<And>m. buildHeatMap [a1, a2] cfgNoY None = Inr (Some m) \<Longrightarrow> yKeys m = [''y'']"
    unfolding cy by blast+
  have b: "(xAxis cfgEmpty = None \<or> xAxis cfgEmpty = Some []) \<and>
    (yAxis cfgEmpty = None \<or> yAxis cfgEmpty = Some [])" by (simp add: cfgEmpty_def)
  have cb: "cfgEmpty\<lparr>xAxis := Some [''x''], yAxis := Some [''y'']\<rparr> = cfgXY"
    by (simp add: cfgEmpty_def cfgXY_def)
  from default_axes[of cfgEmpty "[a1, a2]" None] b
  have db: "buildHeatMap [a1, a2] cfgEmpty None = buildHeatMap [a1, a2] cfgXY None"
    unfolding cb by blast
  obtain m where m: "buildHeatMap [a1, a2] cfgXY None = Inr (Some m)"
    using returns_exA by blast
  have ex: "\<exists>m. buildHeatMap [a1, a2] cfgNoX None = Inr (Some m) \<and> xKeys m = [''x'']"
    using m dx kx by (intro exI[of _ m]) simp
  have ey: "\<exists>m. buildHeatMap [a1, a2] cfgNoY None = Inr (Some m) \<and> yKeys m = [''y'']"
    using m dy ky by (intro exI[of _ m]) simp
  have f: "xAxis cfgNoX = None" "yAxis cfgNoX = Some [''y'']" "xAxis cfgNoY = Some [''x'']"
    "yAxis cfgNoY = Some []" "xAxis cfgEmpty = None" "yAxis cfgEmpty = Some []"
    by (simp_all add: cfgNoX_def cfgNoY_def cfgEmpty_def)
  show ?thesis using dx dy db ex ey f by (intro conjI)
qed

end
